theory Spec2Isabelle
  imports Main
begin

section \<open>A shallow embedding of the shared library of the FHIR client\<close>

text \<open>
  The development embeds the functions of the shared library (\<^verbatim>\<open>lib.ts\<close>): the target
  window resolver, the token helpers, the request pipeline with its per-URL cache, the
  dotted-path accessors, the patient-parameter lookup and the JSON-patch validator.

  Conventions of the embedding.
  \<^item> A JavaScript exception or a rejected promise is the \<open>Inl\<close> branch of a sum type; a
    normal return or a fulfilled promise is the \<open>Inr\<close> branch.
  \<^item> Strings are lists of code units below 256; numbers are the integers.
  \<^item> Objects are own-property dictionaries in insertion order, in front of the built-in
    prototypes. The names of the properties a value inherits from them (\<^verbatim>\<open>toString\<close>,
    \<^verbatim>\<open>constructor\<close>, \<^verbatim>\<open>__proto__\<close>, ...) are part of the model; the inherited values
    themselves (functions) are not, so reading one is marked \<open>Unmodelled\<close>. Getters, frozen
    objects and proxies are outside the model.
  \<^item> Values are trees: a write into a nested object is a functional update of the tree,
    which agrees with the in-place mutation of the source as long as no object is shared
    between two places of the structure.
  \<^item> The module is an ES module, hence strict-mode code: an assignment to a property of
    a primitive value raises a \<^verbatim>\<open>TypeError\<close>.
\<close>

subsection \<open>Values, responses and errors\<close>

datatype jsval =
    JUndefined
  | JNull
  | JBool bool
  | JNum int
  | JStr string
  | JArr "jsval list" "(string \<times> jsval) list"
  | JObj "(string \<times> jsval) list"

text \<open>
  \<open>JArr xs ps\<close> is an array with the elements \<open>xs\<close> and the named (non-index) own
  properties \<open>ps\<close>; a hole of a sparse array is the element \<open>JUndefined\<close>.
  \<open>JObj kvs\<close> is a plain object; the first binding of a key is the one that counts.
\<close>

record response =
  status :: int
  headers :: "(string \<times> string) list"
  body_text :: string

datatype js_error =
    Error string
  | TypeError
  | RangeError
  | SyntaxError
  | InvalidCharacterError
  | HttpError response
  | Unmodelled string

text \<open>
  \<open>Error msg\<close> is \<^verbatim>\<open>new Error(msg)\<close>; \<open>HttpError\<close> is the error of the library's own class,
  built from the response. \<open>Unmodelled\<close> is no JavaScript error: it marks the few places
  where the model does not say what JavaScript does, namely a coercion between numbers and
  strings that the integer model does not describe, and the use of a property inherited
  from a built-in prototype.
\<close>

subsection \<open>The target window resolver\<close>

type_synonym window = nat

text \<open>
  A target is a function, a window-like object, a string or another primitive. A function
  target takes no argument, so it is modelled by what its (awaited) invocation yields:
  it throws or rejects (\<open>Inl\<close>), or it produces another target (\<open>Inr\<close>).
\<close>

datatype target =
    TFunction "js_error + target"
  | TObject window
  | TString string
  | TNumber int
  | TBoolean bool
  | TNull
  | TUndefined

fun typeof_target :: "target \<Rightarrow> string" where
  "typeof_target (TFunction _) = ''function''"
| "typeof_target (TObject _) = ''object''"
| "typeof_target (TString _) = ''string''"
| "typeof_target (TNumber _) = ''number''"
| "typeof_target (TBoolean _) = ''boolean''"
| "typeof_target TNull = ''object''"
| "typeof_target TUndefined = ''undefined''"

fun truthy_target :: "target \<Rightarrow> bool" where
  "truthy_target (TFunction _) = True"
| "truthy_target (TObject _) = True"
| "truthy_target (TString s) = (s \<noteq> [])"
| "truthy_target (TNumber n) = (n \<noteq> 0)"
| "truthy_target (TBoolean b) = b"
| "truthy_target TNull = False"
| "truthy_target TUndefined = False"

text \<open>
  The global scope the resolver reads: \<^verbatim>\<open>self\<close>, \<^verbatim>\<open>parent\<close>, \<^verbatim>\<open>top\<close> (possibly null),
  the named frames, \<^verbatim>\<open>window.open\<close> (which may throw or return null) and the screen size.
\<close>

record browser =
  self :: window
  parent :: window
  top :: "window option"
  frames :: "string \<Rightarrow> window option"
  window_open :: "string \<Rightarrow> string \<Rightarrow> string option \<Rightarrow> js_error + window option"
  screen_height :: int
  screen_width :: int

datatype debug_arg = ArgString string | ArgError js_error

type_synonym debug_log = "(string \<times> debug_arg) list"

subsubsection \<open>Numbers as text\<close>

definition digit_char :: "nat \<Rightarrow> char" where
  "digit_char d = char_of (48 + d)"

fun show_nat :: "nat \<Rightarrow> string" where
  "show_nat n = (if n < 10 then [digit_char n] else show_nat (n div 10) @ [digit_char (n mod 10)])"

declare show_nat.simps [simp del]

definition show_int :: "int \<Rightarrow> string" where
  "show_int i = (if i < 0 then CHR ''-'' # show_nat (nat (- i)) else show_nat (nat i))"

text \<open>\<open>show_half d\<close> is the text of the number \<open>d / 2\<close>, as in \<^verbatim>\<open>"top=" + (screen.height - height) / 2\<close>.\<close>

definition show_half :: "int \<Rightarrow> string" where
  "show_half d =
     (if even d then show_int (d div 2)
      else (if d < 0 then ''-'' else []) @ show_nat (nat (\<bar>d\<bar> div 2)) @ ''.5'')"

fun join :: "string \<Rightarrow> string list \<Rightarrow> string" where
  "join sep [] = []"
| "join sep [s] = s"
| "join sep (s # t # ss) = s @ sep @ join sep (t # ss)"

definition popup_features :: "browser \<Rightarrow> int \<Rightarrow> int \<Rightarrow> string" where
  "popup_features env width height =
     join '',''
       [''height='' @ show_int height,
        ''width='' @ show_int width,
        ''menubar=0'',
        ''resizable=1'',
        ''status=0'',
        ''top='' @ show_half (screen_height env - height),
        ''left='' @ show_half (screen_width env - width)]"

text \<open>
  The two branches that open a window share their shape: call \<^verbatim>\<open>window.open\<close> inside
  \<^verbatim>\<open>try\<close>, turn a null result into an error, and fall back to \<^verbatim>\<open>self\<close> with a diagnostic
  when no window was obtained.
\<close>

definition open_or_self ::
  "browser \<Rightarrow> string option \<Rightarrow> string \<Rightarrow> (js_error + window) \<times> debug_log" where
  "open_or_self env features blocked_msg =
     (case window_open env [] ''SMARTAuthPopup'' features of
        Inl e \<Rightarrow>
          (Inr (self env), [(''Cannot open window. Failing back to '_self'. %s'', ArgError e)])
      | Inr None \<Rightarrow>
          (Inr (self env),
           [(''Cannot open window. Failing back to '_self'. %s'', ArgError (Error blocked_msg))])
      | Inr (Some w) \<Rightarrow> (Inr w, []))"

text \<open>
  \<^verbatim>\<open>if (typeof target == "function") target = await target();\<close> A target that is not a
  function is kept; a function target is replaced by what its invocation yields, and a
  throw or rejection of that invocation leaves the resolver.
\<close>

fun await_target :: "target \<Rightarrow> js_error + target" where
  "await_target (TFunction r) = r"
| "await_target t = Inr t"

text \<open>
  The rest of the body. The first branch is the source's
  \<^verbatim>\<open>target && typeof target == "object"\<close>, the last one its \<^verbatim>\<open>typeof target != "string"\<close>
  (lemmas \<open>object_guard\<close> and \<open>string_guard\<close> below).
\<close>

definition resolve_target ::
  "browser \<Rightarrow> target \<Rightarrow> int \<Rightarrow> int \<Rightarrow> (js_error + window) \<times> debug_log" where
  "resolve_target env tgt width height =
     (case tgt of
        TObject w \<Rightarrow> (Inr w, [])
      | TString s \<Rightarrow>
          if s = ''_self'' then (Inr (self env), [])
          else if s = ''_parent'' then (Inr (parent env), [])
          else if s = ''_top'' then
            (Inr (case top env of Some w \<Rightarrow> w | None \<Rightarrow> self env), [])
          else if s = ''_blank'' then
            open_or_self env None ''Perhaps window.open was blocked''
          else if s = ''popup'' then
            open_or_self env (Some (popup_features env width height))
              ''Perhaps the popup window was blocked''
          else
            (case frames env s of
               Some w \<Rightarrow> (Inr w, [])
             | None \<Rightarrow>
                 (Inr (self env),
                  [(''Unknown target '%s'. Failing back to '_self'.'', ArgString s)]))
      | _ \<Rightarrow>
          (Inr (self env),
           [(''Invalid target type '%s'. Failing back to '_self'.'',
             ArgString (typeof_target tgt))]))"

definition getTargetWindow ::
  "browser \<Rightarrow> target \<Rightarrow> int \<Rightarrow> int \<Rightarrow> (js_error + window) \<times> debug_log" where
  "getTargetWindow env tgt width height =
     (case await_target tgt of
        Inl e \<Rightarrow> (Inl e, [])
      | Inr t \<Rightarrow> resolve_target env t width height)"

text \<open>Three concrete global scopes: one that opens windows, one whose pop-ups are blocked
  (\<^verbatim>\<open>window.open\<close> returns null) and one whose \<^verbatim>\<open>window.open\<close> throws.\<close>

definition example_browser :: browser where
  "example_browser =
     \<lparr>self = 0, parent = 1, top = Some 2,
      frames = (\<lambda>name. if name = ''sidebar'' then Some 3 else None),
      window_open = (\<lambda>url name features. Inr (Some 4)),
      screen_height = 1080, screen_width = 1920\<rparr>"

definition blocked_browser :: browser where
  "blocked_browser = example_browser\<lparr>window_open := (\<lambda>url name features. Inr None)\<rparr>"

definition throwing_browser :: browser where
  "throwing_browser =
     example_browser\<lparr>window_open := (\<lambda>url name features. Inl (Error ''SecurityError''))\<rparr>"

subsection \<open>Strings\<close>

text \<open>
  A character is a code unit below 256. \<open>is_space\<close> lists the white space and line
  terminators of that range, which \<^verbatim>\<open>String.prototype.trim\<close> strips.
\<close>

definition is_space :: "char \<Rightarrow> bool" where
  "is_space c = (of_char c \<in> {9, 10, 11, 12, 13, 32, 160 :: nat})"

definition trim :: "string \<Rightarrow> string" where
  "trim s = rev (dropWhile is_space (rev (dropWhile is_space s)))"

text \<open>\<^verbatim>\<open>s.split(c)\<close> for a one-character separator: never empty, \<^verbatim>\<open>"".split(".")\<close> is \<^verbatim>\<open>[""]\<close>.\<close>

fun split_on :: "char \<Rightarrow> string \<Rightarrow> string list" where
  "split_on c [] = [[]]"
| "split_on c (x # xs) =
     (if x = c then [] # split_on c xs
      else (case split_on c xs of [] \<Rightarrow> [[x]] | s # ss \<Rightarrow> (x # s) # ss))"

definition to_lower :: "char \<Rightarrow> char" where
  "to_lower c =
     (let n = (of_char c :: nat)
      in if (65 \<le> n \<and> n \<le> 90) \<or> (192 \<le> n \<and> n \<le> 222 \<and> n \<noteq> 215) then char_of (n + 32) else c)"

definition toLowerCase :: "string \<Rightarrow> string" where
  "toLowerCase s = map to_lower s"

definition is_digit :: "char \<Rightarrow> bool" where
  "is_digit c = (48 \<le> (of_char c :: nat) \<and> (of_char c :: nat) \<le> 57)"

text \<open>The test \<^verbatim>\<open>/^[0-9]+$/\<close>.\<close>

definition all_digits :: "string \<Rightarrow> bool" where
  "all_digits s = (s \<noteq> [] \<and> list_all is_digit s)"

definition digits_value :: "string \<Rightarrow> nat" where
  "digits_value s = foldl (\<lambda>a c. 10 * a + (of_char c - 48)) 0 s"

text \<open>
  A property key is an integer index when it is the canonical decimal text of a natural
  number (no sign, no leading zero); it is an array index when that number is below
  \<open>2\<^sup>3\<^sup>2 - 1\<close>.
\<close>

definition canonical_index :: "string \<Rightarrow> nat option" where
  "canonical_index s =
     (if all_digits s \<and> (s = ''0'' \<or> hd s \<noteq> CHR ''0'') then Some (digits_value s) else None)"

definition array_index :: "string \<Rightarrow> nat option" where
  "array_index s =
     (case canonical_index s of
        Some i \<Rightarrow> if i < 4294967295 then Some i else None
      | None \<Rightarrow> None)"

text \<open>
  The tests \<^verbatim>\<open>/\bjson\b/i\<close> and \<^verbatim>\<open>/\btext\b/i\<close>: the lower-case word \<open>w\<close> occurs in \<open>s\<close>,
  in any letter case, with no word character right before or right after it.
\<close>

definition word_char :: "char \<Rightarrow> bool" where
  "word_char c =
     (let n = (of_char c :: nat)
      in (48 \<le> n \<and> n \<le> 57) \<or> (65 \<le> n \<and> n \<le> 90) \<or> (97 \<le> n \<and> n \<le> 122) \<or> n = 95)"

definition ascii_lower :: "char \<Rightarrow> char" where
  "ascii_lower c =
     (let n = (of_char c :: nat) in if 65 \<le> n \<and> n \<le> 90 then char_of (n + 32) else c)"

definition word_here :: "string \<Rightarrow> string \<Rightarrow> bool" where
  "word_here w s =
     (length w \<le> length s \<and> map ascii_lower (take (length w) s) = w \<and>
      (case drop (length w) s of [] \<Rightarrow> True | d # _ \<Rightarrow> \<not> word_char d))"

fun word_from :: "string \<Rightarrow> bool \<Rightarrow> string \<Rightarrow> bool" where
  "word_from w prev [] = False"
| "word_from w prev (c # cs) =
     ((\<not> prev \<and> word_here w (c # cs)) \<or> word_from w (word_char c) cs)"

definition matches_word :: "string \<Rightarrow> string \<Rightarrow> bool" where
  "matches_word w s = word_from w False s"

subsection \<open>Property access\<close>

fun truthy :: "jsval \<Rightarrow> bool" where
  "truthy JUndefined = False"
| "truthy JNull = False"
| "truthy (JBool b) = b"
| "truthy (JNum n) = (n \<noteq> 0)"
| "truthy (JStr s) = (s \<noteq> [])"
| "truthy (JArr xs ps) = True"
| "truthy (JObj kvs) = True"

fun isArray :: "jsval \<Rightarrow> bool" where
  "isArray (JArr xs ps) = True"
| "isArray v = False"

definition lookup :: "(string \<times> jsval) list \<Rightarrow> string \<Rightarrow> jsval" where
  "lookup kvs k = (case map_of kvs k of Some v \<Rightarrow> v | None \<Rightarrow> JUndefined)"

text \<open>
  The names of the properties that the built-in prototypes hold, after the language
  standard and its annex for web browsers. Every object, array, string, number and boolean
  inherits those of \<^verbatim>\<open>Object.prototype\<close>; an array also those of \<^verbatim>\<open>Array.prototype\<close>, and
  so on. The lists err on the side of more names: an older engine lacks the latest methods.
\<close>

definition object_prototype_names :: "string list" where
  "object_prototype_names =
     [''constructor'', ''__defineGetter__'', ''__defineSetter__'', ''hasOwnProperty'',
      ''__lookupGetter__'', ''__lookupSetter__'', ''isPrototypeOf'', ''propertyIsEnumerable'',
      ''toString'', ''valueOf'', ''__proto__'', ''toLocaleString'']"

definition array_prototype_names :: "string list" where
  "array_prototype_names =
     [''at'', ''concat'', ''copyWithin'', ''entries'', ''every'', ''fill'', ''filter'', ''find'',
      ''findIndex'', ''findLast'', ''findLastIndex'', ''flat'', ''flatMap'', ''forEach'',
      ''includes'', ''indexOf'', ''join'', ''keys'', ''lastIndexOf'', ''map'', ''pop'', ''push'',
      ''reduce'', ''reduceRight'', ''reverse'', ''shift'', ''slice'', ''some'', ''sort'',
      ''splice'', ''toReversed'', ''toSorted'', ''toSpliced'', ''unshift'', ''values'', ''with'']"

definition string_prototype_names :: "string list" where
  "string_prototype_names =
     [''anchor'', ''at'', ''big'', ''blink'', ''bold'', ''charAt'', ''charCodeAt'',
      ''codePointAt'', ''concat'', ''endsWith'', ''fixed'', ''fontcolor'', ''fontsize'',
      ''includes'', ''indexOf'', ''isWellFormed'', ''italics'', ''lastIndexOf'', ''link'',
      ''localeCompare'', ''match'', ''matchAll'', ''normalize'', ''padEnd'', ''padStart'',
      ''repeat'', ''replace'', ''replaceAll'', ''search'', ''slice'', ''small'', ''split'',
      ''startsWith'', ''strike'', ''sub'', ''substr'', ''substring'', ''sup'',
      ''toLocaleLowerCase'', ''toLocaleUpperCase'', ''toLowerCase'', ''toUpperCase'',
      ''toWellFormed'', ''trim'', ''trimEnd'', ''trimLeft'', ''trimRight'', ''trimStart'']"

definition number_prototype_names :: "string list" where
  "number_prototype_names = [''toExponential'', ''toFixed'', ''toPrecision'']"

text \<open>
  \<open>inherited v k\<close>: the value \<open>v\<close> has no own property \<open>k\<close> and finds \<open>k\<close> on its prototype
  chain. None of the names is an index or \<^verbatim>\<open>length\<close>, so for a string only the lists count.
  \<^verbatim>\<open>Boolean.prototype\<close> adds no name to those of \<^verbatim>\<open>Object.prototype\<close>.
\<close>

definition inherited :: "jsval \<Rightarrow> string \<Rightarrow> bool" where
  "inherited v k =
     (case v of
        JObj kvs \<Rightarrow> k \<notin> set (map fst kvs) \<and> k \<in> set object_prototype_names
      | JArr xs ps \<Rightarrow>
          k \<notin> set (map fst ps) \<and> k \<in> set (array_prototype_names @ object_prototype_names)
      | JStr s \<Rightarrow> k \<in> set (string_prototype_names @ object_prototype_names)
      | JNum n \<Rightarrow> k \<in> set (number_prototype_names @ object_prototype_names)
      | JBool b \<Rightarrow> k \<in> set object_prototype_names
      | _ \<Rightarrow> False)"

definition inherited_member :: js_error where
  "inherited_member = Unmodelled ''a property inherited from a built-in prototype''"

text \<open>
  \<^verbatim>\<open>v[key]\<close>. Reading a property of \<^verbatim>\<open>null\<close> or \<^verbatim>\<open>undefined\<close> raises; a number or a boolean
  has no own property; a string has its characters and its length. A property that is
  not an own one is \<^verbatim>\<open>undefined\<close>, unless it is inherited.
\<close>

fun get_prop :: "jsval \<Rightarrow> string \<Rightarrow> js_error + jsval" where
  "get_prop JUndefined k = Inl TypeError"
| "get_prop JNull k = Inl TypeError"
| "get_prop (JBool b) k = (if inherited (JBool b) k then Inl inherited_member else Inr JUndefined)"
| "get_prop (JNum n) k = (if inherited (JNum n) k then Inl inherited_member else Inr JUndefined)"
| "get_prop (JStr s) k =
     (case canonical_index k of
        Some i \<Rightarrow> Inr (if i < length s then JStr [s ! i] else JUndefined)
      | None \<Rightarrow>
          if k = ''length'' then Inr (JNum (int (length s)))
          else if inherited (JStr s) k then Inl inherited_member
          else Inr JUndefined)"
| "get_prop (JArr xs ps) k =
     (case array_index k of
        Some i \<Rightarrow> Inr (if i < length xs then xs ! i else JUndefined)
      | None \<Rightarrow>
          if k = ''length'' then Inr (JNum (int (length xs)))
          else if inherited (JArr xs ps) k then Inl inherited_member
          else Inr (lookup ps k))"
| "get_prop (JObj kvs) k =
     (if inherited (JObj kvs) k then Inl inherited_member else Inr (lookup kvs k))"

text \<open>The own property \<open>k\<close> becomes \<open>v\<close>: in place when it exists, appended otherwise.\<close>

fun put_own :: "string \<Rightarrow> jsval \<Rightarrow> (string \<times> jsval) list \<Rightarrow> (string \<times> jsval) list" where
  "put_own k v [] = [(k, v)]"
| "put_own k v (p # ps) = (if fst p = k then (k, v) # ps else p # put_own k v ps)"

text \<open>
  \<^verbatim>\<open>out[key] = v\<close> in strict mode. Writing an index at or past the end of an array extends
  it, the skipped positions being holes. Writing \<^verbatim>\<open>length\<close> resizes the array when the
  value is a number in range and raises a \<^verbatim>\<open>RangeError\<close> for another number. Writing a name
  that is inherited creates an own property, the inherited ones being writable; but the
  inherited \<^verbatim>\<open>__proto__\<close> is a setter, which replaces the prototype or does nothing.
\<close>

definition proto_setter :: js_error where
  "proto_setter = Unmodelled ''an assignment to the inherited __proto__''"

fun set_prop :: "jsval \<Rightarrow> string \<Rightarrow> jsval \<Rightarrow> js_error + jsval" where
  "set_prop (JObj kvs) k v =
     (if k = ''__proto__'' \<and> inherited (JObj kvs) k then Inl proto_setter
      else Inr (JObj (put_own k v kvs)))"
| "set_prop (JArr xs ps) k v =
     (case array_index k of
        Some i \<Rightarrow>
          Inr (JArr (if i < length xs then xs[i := v]
                     else xs @ replicate (i - length xs) JUndefined @ [v]) ps)
      | None \<Rightarrow>
          if k = ''length'' then
            (case v of
               JNum n \<Rightarrow>
                 if 0 \<le> n \<and> n < 4294967296 then
                   Inr (JArr (take (nat n) xs @ replicate (nat n - length xs) JUndefined) ps)
                 else Inl RangeError
             | _ \<Rightarrow> Inl (Unmodelled ''array length from a value that is not a number''))
          else if k = ''__proto__'' \<and> inherited (JArr xs ps) k then Inl proto_setter
          else Inr (JArr xs (put_own k v ps)))"
| "set_prop v k w = Inl TypeError"

subsection \<open>The token helpers\<close>

text \<open>
  What the helpers take from their surroundings: \<^verbatim>\<open>JSON.parse\<close> and the clock
  (\<^verbatim>\<open>Date.now()\<close>, in milliseconds) of the platform, and the \<^verbatim>\<open>atob\<close> method of the adapter
  \<^verbatim>\<open>env\<close>. The adapter classes are not part of the sources at hand, so \<^verbatim>\<open>atob\<close> is a
  parameter; it may raise, as the browser's \<^verbatim>\<open>atob\<close> does on text that is not base64.
\<close>

record platform =
  JSON_parse :: "string \<Rightarrow> js_error + jsval"
  Date_now :: int

record adapter =
  atob :: "string \<Rightarrow> js_error + string"

text \<open>\<^verbatim>\<open>xs[1]\<close> on the list of segments: \<^verbatim>\<open>undefined\<close> (\<open>None\<close>) when there is no second one.\<close>

definition second :: "'a list \<Rightarrow> 'a option" where
  "second xs = (case xs of _ # y # _ \<Rightarrow> Some y | _ \<Rightarrow> None)"

definition jwtDecode :: "platform \<Rightarrow> adapter \<Rightarrow> string \<Rightarrow> js_error + jsval" where
  "jwtDecode plat env token =
     (case second (split_on CHR ''.'' token) of
        None \<Rightarrow> Inr JNull
      | Some payload \<Rightarrow>
          if payload = [] then Inr JNull
          else (case atob env payload of
                  Inl e \<Rightarrow> Inl e
                | Inr text \<Rightarrow> JSON_parse plat text))"

record token_response =
  expires_in :: "int option"
  access_token :: "string option"

text \<open>
  Options 2 and 3 of \<^verbatim>\<open>getAccessTokenExpiration\<close>, reached when \<^verbatim>\<open>expires_in\<close> is absent or
  zero: the \<^verbatim>\<open>exp\<close> claim of a non-empty access token, when the decoded body and the claim
  are truthy, and five minutes from now otherwise. The condition
  \<^verbatim>\<open>tokenBody && tokenBody.exp\<close> reads \<^verbatim>\<open>exp\<close> only from a truthy body.
\<close>

definition expiration_from_token ::
  "platform \<Rightarrow> adapter \<Rightarrow> token_response \<Rightarrow> int \<Rightarrow> js_error + jsval" where
  "expiration_from_token plat env tokenResponse now =
     (case access_token tokenResponse of
        None \<Rightarrow> Inr (JNum (now + 300))
      | Some token \<Rightarrow>
          if token = [] then Inr (JNum (now + 300))
          else (case jwtDecode plat env token of
                  Inl e \<Rightarrow> Inl e
                | Inr tokenBody \<Rightarrow>
                    if \<not> truthy tokenBody then Inr (JNum (now + 300))
                    else (case get_prop tokenBody ''exp'' of
                            Inl e \<Rightarrow> Inl e
                          | Inr exp_claim \<Rightarrow>
                              if truthy exp_claim then Inr exp_claim
                              else Inr (JNum (now + 300)))))"

definition getAccessTokenExpiration ::
  "platform \<Rightarrow> adapter \<Rightarrow> token_response \<Rightarrow> js_error + jsval" where
  "getAccessTokenExpiration plat env tokenResponse =
     (let now = Date_now plat div 1000 in
      case expires_in tokenResponse of
        Some n \<Rightarrow>
          if n \<noteq> 0 then Inr (JNum (now + n))
          else expiration_from_token plat env tokenResponse now
      | None \<Rightarrow> expiration_from_token plat env tokenResponse now)"

text \<open>
  Modelled from the spec: the adapter's \<^verbatim>\<open>atob\<close>, "an adapter-supplied base64 decoder" (the
  adapter classes are not among the sources). It works as the browser's \<^verbatim>\<open>atob\<close>: white space is
  dropped, up to two padding characters are removed from a text whose length is a multiple
  of four, a text of length \<open>4k + 1\<close> or with a character outside the alphabet raises an
  \<^verbatim>\<open>InvalidCharacterError\<close>, and the bits left over at the end are discarded.
\<close>

definition b64_value :: "char \<Rightarrow> nat option" where
  "b64_value c =
     (let n = (of_char c :: nat)
      in if 65 \<le> n \<and> n \<le> 90 then Some (n - 65)
         else if 97 \<le> n \<and> n \<le> 122 then Some (n - 71)
         else if 48 \<le> n \<and> n \<le> 57 then Some (n + 4)
         else if n = 43 then Some 62
         else if n = 47 then Some 63
         else None)"

fun b64_bytes :: "nat list \<Rightarrow> string" where
  "b64_bytes (a # b # c # d # rest) =
     (let n = ((a * 64 + b) * 64 + c) * 64 + d
      in char_of (n div 65536) # char_of (n div 256 mod 256) # char_of (n mod 256) # b64_bytes rest)"
| "b64_bytes [a, b, c] =
     (let n = ((a * 64 + b) * 64 + c) div 4 in [char_of (n div 256), char_of (n mod 256)])"
| "b64_bytes [a, b] = [char_of ((a * 64 + b) div 16)]"
| "b64_bytes _ = []"

definition strip_padding :: "string \<Rightarrow> string" where
  "strip_padding s =
     (if length s mod 4 = 0 \<and> s \<noteq> [] \<and> last s = CHR ''=''
      then (if butlast s \<noteq> [] \<and> last (butlast s) = CHR ''='' then butlast (butlast s)
            else butlast s)
      else s)"

definition ascii_blank :: "char \<Rightarrow> bool" where
  "ascii_blank c = (of_char c \<in> {9, 10, 12, 13, 32 :: nat})"

definition base64_atob :: "string \<Rightarrow> js_error + string" where
  "base64_atob s =
     (let t = strip_padding (filter (\<lambda>c. \<not> ascii_blank c) s)
      in if length t mod 4 = 1 \<or> \<not> list_all (\<lambda>c. b64_value c \<noteq> None) t
         then Inl InvalidCharacterError
         else Inr (b64_bytes (map (\<lambda>c. the (b64_value c)) t)))"

definition browser_adapter :: adapter where
  "browser_adapter = \<lparr>atob = base64_atob\<rparr>"

text \<open>
  A platform for the examples. Its \<^verbatim>\<open>JSON.parse\<close> is a table of the texts the examples
  parse, with the result the real function gives for each: the empty text and the text
  \<^verbatim>\<open>a\<close> are not JSON. Its clock reads 1600000000123 milliseconds.
\<close>

definition example_json_table :: "(string \<times> (js_error + jsval)) list" where
  \<open>example_json_table =
     [(''{"exp":1700000000}'', Inr (JObj [(''exp'', JNum 1700000000)])),
      (''{"sub":"abc"}'', Inr (JObj [(''sub'', JStr ''abc'')])),
      (''{"exp":0}'', Inr (JObj [(''exp'', JNum 0)])),
      (''null'', Inr JNull),
      ([], Inl SyntaxError),
      (''a'', Inl SyntaxError)]\<close>

definition example_platform :: platform where
  "example_platform =
     \<lparr>JSON_parse = (\<lambda>s. case map_of example_json_table s of
                          Some r \<Rightarrow> r
                        | None \<Rightarrow> Inl (Unmodelled ''a text outside the table of the examples'')),
      Date_now = 1600000000123\<rparr>"

subsection \<open>Assertions and the JSON-patch validator\<close>

text \<open>Sequencing of steps that may raise: the first error ends the computation.\<close>

definition and_then :: "'e + 'a \<Rightarrow> ('a \<Rightarrow> 'e + 'b) \<Rightarrow> 'e + 'b" where
  "and_then r f = (case r of Inl e \<Rightarrow> Inl e | Inr x \<Rightarrow> f x)"

definition assert :: "bool \<Rightarrow> string \<Rightarrow> js_error + unit" where
  "assert condition message = (if condition then Inr () else Inl (Error message))"

fun typeof :: "jsval \<Rightarrow> string" where
  "typeof JUndefined = ''undefined''"
| "typeof JNull = ''object''"
| "typeof (JBool b) = ''boolean''"
| "typeof (JNum n) = ''number''"
| "typeof (JStr s) = ''string''"
| "typeof (JArr xs ps) = ''object''"
| "typeof (JObj kvs) = ''object''"

text \<open>
  \<^verbatim>\<open>Object.keys(v)\<close>, up to the order of the keys (only their number is used), and
  \<^verbatim>\<open>k in v\<close>, which raises when \<open>v\<close> is not an object; for an inherited name it looks at
  the prototypes.
\<close>

fun own_keys :: "jsval \<Rightarrow> js_error + string list" where
  "own_keys JUndefined = Inl TypeError"
| "own_keys JNull = Inl TypeError"
| "own_keys (JBool b) = Inr []"
| "own_keys (JNum n) = Inr []"
| "own_keys (JStr s) = Inr (map show_nat [0..<length s])"
| "own_keys (JArr xs ps) = Inr (map show_nat [0..<length xs] @ remdups (map fst ps))"
| "own_keys (JObj kvs) = Inr (remdups (map fst kvs))"

fun has_property :: "string \<Rightarrow> jsval \<Rightarrow> js_error + bool" where
  "has_property k (JObj kvs) =
     (if inherited (JObj kvs) k then Inl inherited_member else Inr (k \<in> set (map fst kvs)))"
| "has_property k (JArr xs ps) =
     (case array_index k of
        Some i \<Rightarrow> Inr (i < length xs)
      | None \<Rightarrow>
          if inherited (JArr xs ps) k then Inl inherited_member
          else Inr (k = ''length'' \<or> k \<in> set (map fst ps)))"
| "has_property k v = Inl TypeError"

definition patch_ops :: "string list" where
  "patch_ops = [''add'', ''replace'', ''test'', ''move'', ''copy'', ''remove'']"

text \<open>The text of \<^verbatim>\<open>operation.op\<close> inside a message; it is a string wherever a message is built.\<close>

definition op_text :: "jsval \<Rightarrow> string" where
  "op_text v = (case v of JStr s \<Rightarrow> s | _ \<Rightarrow> [])"

text \<open>The body of the \<^verbatim>\<open>forEach\<close> callback of \<^verbatim>\<open>assertJsonPatch\<close>, for one operation.\<close>

definition assert_operation :: "jsval \<Rightarrow> js_error + unit" where
  \<open>assert_operation operation =
     and_then (get_prop operation ''op'') (\<lambda>op.
     and_then
       (assert (op \<in> set (map JStr patch_ops))
          (''Each patch operation must have an "op" property which must be one of: '' @
           ''"add", "replace", "test", "move", "copy", "remove"'')) (\<lambda>_.
     and_then (get_prop operation ''path'') (\<lambda>path.
     and_then
       (assert (truthy path)
          (''Invalid "'' @ op_text op @ ''" operation. Missing "path" property'')) (\<lambda>_.
     if op = JStr ''add'' \<or> op = JStr ''replace'' \<or> op = JStr ''test'' then
       and_then (has_property ''value'' operation) (\<lambda>has_value.
       and_then
         (assert has_value
            (''Invalid "'' @ op_text op @ ''" operation. Missing "value" property'')) (\<lambda>_.
       and_then (own_keys operation) (\<lambda>keys.
         assert (length keys = 3)
           (''Invalid "'' @ op_text op @ ''" operation. Contains unknown properties''))))
     else if op = JStr ''move'' \<or> op = JStr ''copy'' then
       and_then (get_prop operation ''from'') (\<lambda>from.
       and_then
         (assert (typeof from = ''string'')
            (''Invalid "'' @ op_text op @ ''" operation. Requires a string "from" property''))
         (\<lambda>_.
       and_then (own_keys operation) (\<lambda>keys.
         assert (length keys = 3)
           (''Invalid "'' @ op_text op @ ''" operation. Contains unknown properties''))))
     else
       and_then (own_keys operation) (\<lambda>keys.
         assert (length keys = 2)
           (''Invalid "'' @ op_text op @ ''" operation. Contains unknown properties''))))))\<close>

text \<open>\<^verbatim>\<open>patch.forEach(...)\<close>: the operations in order, up to the first one that raises.\<close>

fun assert_each :: "jsval list \<Rightarrow> js_error + unit" where
  "assert_each [] = Inr ()"
| "assert_each (operation # rest) = and_then (assert_operation operation) (\<lambda>_. assert_each rest)"

definition assertJsonPatch :: "jsval \<Rightarrow> js_error + unit" where
  "assertJsonPatch patch =
     and_then (assert (isArray patch) ''The JSON patch must be an array'') (\<lambda>_.
     case patch of
       JArr ops ps \<Rightarrow>
         and_then (assert (length ops > 0) ''The JSON patch array should not be empty'') (\<lambda>_.
           assert_each ops)
     | _ \<Rightarrow> Inr ())"

text \<open>
  The validity of a patch document in the words of the specification: a non-empty array
  whose every operation has a recognized \<^verbatim>\<open>op\<close> and a \<^verbatim>\<open>path\<close>; \<^verbatim>\<open>add\<close>, \<^verbatim>\<open>replace\<close> and
  \<^verbatim>\<open>test\<close> have a \<^verbatim>\<open>value\<close> field and three fields in all; \<^verbatim>\<open>move\<close> and \<^verbatim>\<open>copy\<close> have a
  string \<^verbatim>\<open>from\<close> and three fields in all; \<^verbatim>\<open>remove\<close> has two fields in all. The parameter
  \<open>path_ok\<close> says what "has a path" means.
\<close>

definition has_field :: "jsval \<Rightarrow> string \<Rightarrow> bool" where
  "has_field v k = (has_property k v = Inr True)"

definition field_count :: "jsval \<Rightarrow> nat \<Rightarrow> bool" where
  "field_count v n = (case own_keys v of Inr ks \<Rightarrow> length ks = n | Inl e \<Rightarrow> False)"

definition field_is :: "jsval \<Rightarrow> string \<Rightarrow> (jsval \<Rightarrow> bool) \<Rightarrow> bool" where
  "field_is v k P = (case get_prop v k of Inr x \<Rightarrow> P x | Inl e \<Rightarrow> False)"

definition spec_valid_operation :: "(jsval \<Rightarrow> bool) \<Rightarrow> jsval \<Rightarrow> bool" where
  "spec_valid_operation path_ok operation =
     (path_ok operation \<and>
      ((field_is operation ''op'' (\<lambda>op. op \<in> set (map JStr [''add'', ''replace'', ''test''])) \<and>
        has_field operation ''value'' \<and> field_count operation 3) \<or>
       (field_is operation ''op'' (\<lambda>op. op \<in> set (map JStr [''move'', ''copy''])) \<and>
        field_is operation ''from'' (\<lambda>from. typeof from = ''string'') \<and>
        field_count operation 3) \<or>
       (field_is operation ''op'' (\<lambda>op. op = JStr ''remove'') \<and> field_count operation 2)))"

definition spec_valid_patch :: "(jsval \<Rightarrow> bool) \<Rightarrow> jsval \<Rightarrow> bool" where
  "spec_valid_patch path_ok patch =
     (case patch of
        JArr ops ps \<Rightarrow> ops \<noteq> [] \<and> list_all (spec_valid_operation path_ok) ops
      | _ \<Rightarrow> False)"

text \<open>The two readings of "has a path": the field is present; the field is truthy.\<close>

definition path_present :: "jsval \<Rightarrow> bool" where
  "path_present operation = has_field operation ''path''"

definition path_truthy :: "jsval \<Rightarrow> bool" where
  "path_truthy operation = field_is operation ''path'' truthy"

subsection \<open>The path accessor\<close>

text \<open>The results of the callbacks of \<^verbatim>\<open>Array.prototype.map\<close>, in order, up to the first raise.\<close>

fun collect :: "('e + 'a) list \<Rightarrow> 'e + 'a list" where
  "collect [] = Inr []"
| "collect (r # rs) =
     (case r of
        Inl e \<Rightarrow> Inl e
      | Inr x \<Rightarrow> (case collect rs of Inl e \<Rightarrow> Inl e | Inr xs \<Rightarrow> Inr (x # xs)))"

definition segments_size :: "string list \<Rightarrow> nat" where
  "segments_size segs = sum_list (map (\<lambda>s. Suc (length s)) segs)"

lemma segments_size_split_on: "segments_size (split_on c p) = Suc (length p)"
  by (induction p) (auto simp: segments_size_def split: list.splits)

lemma length_join_dot: "segs \<noteq> [] \<Longrightarrow> Suc (length (join ''.'' segs)) = segments_size segs"
  by (induction "''.''" segs rule: join.induct) (auto simp: segments_size_def)

lemma length_trim_le: "length (trim s) \<le> length s"
proof -
  have "length (trim s) \<le> length (dropWhile is_space s)"
    unfolding trim_def length_rev
    by (metis length_dropWhile_le length_rev)
  also have "\<dots> \<le> length s" by (rule length_dropWhile_le)
  finally show ?thesis .
qed

text \<open>
  The \<^verbatim>\<open>while\<close> loop of \<^verbatim>\<open>getPath\<close>, on the current \<^verbatim>\<open>result\<close> and the remaining
  \<^verbatim>\<open>segments\<close>. An empty key on an array maps the rest of the path over the elements:
  \<^verbatim>\<open>result.map((o) => getPath(o, segments.join(".")))\<close>, where the inner call trims the
  joined path, returns \<open>o\<close> when it is empty and splits it again otherwise (lemma
  \<open>getPath_loop_broadcast\<close> states this equation with \<open>getPath\<close> itself).
\<close>

function getPath_loop :: "jsval \<Rightarrow> string list \<Rightarrow> js_error + jsval" where
  "getPath_loop result [] = Inr result"
| "getPath_loop result (key # segments) =
     (if \<not> truthy result then Inr result
      else if key = [] \<and> isArray result then
        (case result of
           JArr xs ps \<Rightarrow>
             (case collect
                     (map (\<lambda>elem. if trim (join ''.'' segments) = [] then Inr elem
                               else getPath_loop elem (split_on CHR ''.'' (trim (join ''.'' segments))))
                        xs) of
                Inl e \<Rightarrow> Inl e
              | Inr ys \<Rightarrow> Inr (JArr ys []))
         | _ \<Rightarrow> Inr result)
      else (case get_prop result key of
              Inl e \<Rightarrow> Inl e
            | Inr next \<Rightarrow> getPath_loop next segments))"
  by pat_completeness auto
termination
  apply (relation "measure (\<lambda>(result, segs). segments_size segs)")
    apply simp
   defer
   apply (simp add: segments_size_def)
  subgoal premises p for result key segments xs ps z
  proof -
    from p have ne: "trim (join ''.'' segments) \<noteq> []" by simp
    then have "segments \<noteq> []" by (auto simp: trim_def)
    then have "Suc (length (join ''.'' segments)) = segments_size segments"
      by (rule length_join_dot)
    moreover have "length (trim (join ''.'' segments)) \<le> length (join ''.'' segments)"
      by (rule length_trim_le)
    ultimately show ?thesis
      by (simp add: segments_size_split_on) (simp add: segments_size_def)
  qed
  done

definition getPath :: "jsval \<Rightarrow> string \<Rightarrow> js_error + jsval" where
  "getPath obj path =
     (if trim path = [] then Inr obj else getPath_loop obj (split_on CHR ''.'' (trim path)))"

text \<open>
  The \<^verbatim>\<open>reduce\<close> of \<^verbatim>\<open>setPath\<close>, on the accumulator \<^verbatim>\<open>out\<close> and the keys from the current one
  on; the result is \<^verbatim>\<open>out\<close> as the remaining steps leave it. The last key is assigned when
  \<^verbatim>\<open>out\<close> is truthy. At another key, a property that is \<^verbatim>\<open>undefined\<close> is first created when
  \<^verbatim>\<open>createEmpty\<close> is set, as an array when the next key is all digits and as an object
  otherwise; the remaining steps then work on the property's value, and what they write
  into it (when it is an object or an array) is seen through the property.
\<close>

fun is_container :: "jsval \<Rightarrow> bool" where
  "is_container (JArr xs ps) = True"
| "is_container (JObj kvs) = True"
| "is_container v = False"

fun setPath_reduce :: "bool \<Rightarrow> jsval \<Rightarrow> jsval \<Rightarrow> string list \<Rightarrow> js_error + jsval" where
  "setPath_reduce createEmpty v out [] = Inr out"
| "setPath_reduce createEmpty v out [key] =
     (if truthy out then set_prop out key v else Inr out)"
| "setPath_reduce createEmpty v out (key # next_key # rest) =
     (if \<not> truthy out then Inr out
      else case get_prop out key of
        Inl e \<Rightarrow> Inl e
      | Inr cur \<Rightarrow>
          (case (if cur = JUndefined \<and> createEmpty
                 then set_prop out key (if all_digits next_key then JArr [] [] else JObj [])
                 else Inr out) of
             Inl e \<Rightarrow> Inl e
           | Inr out1 \<Rightarrow>
               (case get_prop out1 key of
                  Inl e \<Rightarrow> Inl e
                | Inr child \<Rightarrow>
                    (case setPath_reduce createEmpty v child (next_key # rest) of
                       Inl e \<Rightarrow> Inl e
                     | Inr child' \<Rightarrow>
                         if is_container child then set_prop out1 key child'
                         else Inr out1))))"

definition setPath :: "jsval \<Rightarrow> string \<Rightarrow> jsval \<Rightarrow> bool \<Rightarrow> js_error + jsval" where
  "setPath obj path v createEmpty =
     setPath_reduce createEmpty v obj (split_on CHR ''.'' (trim path))"

text \<open>
  When a write along a path lands. \<open>writable createEmpty out keys\<close> holds when \<^verbatim>\<open>out\<close> is
  an object or an array at every step, no key names a property that \<^verbatim>\<open>out\<close> inherits, no
  step reads the empty key from an array (which \<^verbatim>\<open>getPath\<close> would map over the elements),
  every property on the way but the last holds an object or an array, or is \<^verbatim>\<open>undefined\<close>
  while \<^verbatim>\<open>createEmpty\<close> is set, and the last key is not the \<^verbatim>\<open>length\<close> of an array.
\<close>

fun writable :: "bool \<Rightarrow> jsval \<Rightarrow> string list \<Rightarrow> bool" where
  "writable createEmpty out [] = False"
| "writable createEmpty out [key] =
     (is_container out \<and> \<not> inherited out key \<and>
      \<not> (isArray out \<and> (key = [] \<or> key = ''length'')))"
| "writable createEmpty out (key # next_key # rest) =
     (is_container out \<and> \<not> inherited out key \<and> \<not> (isArray out \<and> key = []) \<and>
      (case get_prop out key of
         Inl e \<Rightarrow> False
       | Inr cur \<Rightarrow>
           if cur = JUndefined
           then createEmpty \<and>
                writable createEmpty (if all_digits next_key then JArr [] [] else JObj [])
                  (next_key # rest)
           else writable createEmpty cur (next_key # rest)))"

text \<open>
  The container that stands for a missing property, in the words of the specification:
  an empty array when the next key is all digits and an empty object otherwise, with the
  rest of the path written into it in the same way and the value at the end. In an array
  the key is an index, the positions before it being holes, or (as \<^verbatim>\<open>007\<close>) a name.
\<close>

fun materialized :: "jsval \<Rightarrow> string list \<Rightarrow> jsval" where
  "materialized v [] = v"
| "materialized v (k # ks) =
     (if all_digits k then
        (case array_index k of
           Some i \<Rightarrow> JArr (replicate i JUndefined @ [materialized v ks]) []
         | None \<Rightarrow> JArr [] [(k, materialized v ks)])
      else JObj [(k, materialized v ks)])"

subsection \<open>The patient-parameter lookup\<close>

text \<open>
  \<^verbatim>\<open>Array.prototype.find\<close> with a callback that may raise: the first element for which the
  callback holds, \<^verbatim>\<open>undefined\<close> when there is none. Calling \<^verbatim>\<open>find\<close> on a value that is not
  an array raises, since the value has no such method.
\<close>

fun find_first :: "('a \<Rightarrow> js_error + bool) \<Rightarrow> 'a list \<Rightarrow> js_error + 'a option" where
  "find_first p [] = Inr None"
| "find_first p (x # xs) =
     (case p x of
        Inl e \<Rightarrow> Inl e
      | Inr b \<Rightarrow> if b then Inr (Some x) else find_first p xs)"

definition array_find :: "(jsval \<Rightarrow> js_error + bool) \<Rightarrow> jsval \<Rightarrow> js_error + jsval" where
  "array_find p v =
     (case v of
        JArr xs ps \<Rightarrow>
          (case find_first p xs of
             Inl e \<Rightarrow> Inl e
           | Inr None \<Rightarrow> Inr JUndefined
           | Inr (Some x) \<Rightarrow> Inr x)
      | _ \<Rightarrow> Inl TypeError)"

text \<open>
  \<^verbatim>\<open>v == s\<close> for a string \<open>s\<close>. A string equals the same string, \<^verbatim>\<open>null\<close> and \<^verbatim>\<open>undefined\<close>
  equal no string, a plain object is compared through its text \<^verbatim>\<open>[object Object]\<close>. For a
  number, a boolean or an array the comparison converts between numbers and strings.
\<close>

fun loose_eq_string :: "jsval \<Rightarrow> string \<Rightarrow> js_error + bool" where
  "loose_eq_string (JStr a) s = Inr (a = s)"
| "loose_eq_string JUndefined s = Inr False"
| "loose_eq_string JNull s = Inr False"
| "loose_eq_string (JObj kvs) s = Inr (s = ''[object Object]'')"
| "loose_eq_string v s = Inl (Unmodelled ''loose equality of a string with a number, boolean or array'')"

text \<open>The callbacks \<^verbatim>\<open>(r) => r.type === resourceType\<close> and \<^verbatim>\<open>(x) => x.name == p\<close>.\<close>

definition type_is :: "string \<Rightarrow> jsval \<Rightarrow> js_error + bool" where
  "type_is resourceType r =
     (case get_prop r ''type'' of Inl e \<Rightarrow> Inl e | Inr t \<Rightarrow> Inr (t = JStr resourceType))"

definition name_is :: "string \<Rightarrow> jsval \<Rightarrow> js_error + bool" where
  "name_is p x =
     (case get_prop x ''name'' of Inl e \<Rightarrow> Inl e | Inr n \<Rightarrow> loose_eq_string n p)"

text \<open>
  \<^verbatim>\<open>getPatientParam\<close>. The list \<^verbatim>\<open>patientParams\<close> is imported from the settings module, which
  is not part of the sources at hand; it is a parameter here.
\<close>

definition getPatientParam :: "string list \<Rightarrow> jsval \<Rightarrow> string \<Rightarrow> js_error + string" where
  \<open>getPatientParam patientParams conformance resourceType =
     and_then (getPath conformance ''rest.0.resource'') (\<lambda>found.
     and_then (array_find (type_is resourceType) (if truthy found then found else JArr [] []))
       (\<lambda>meta.
     if \<not> truthy meta then
       Inl (Error (''Resource "'' @ resourceType @ ''" is not supported by this FHIR server''))
     else
       and_then (get_prop meta ''searchParam'') (\<lambda>searchParam.
       if \<not> isArray searchParam then
         Inl (Error (''No search parameters supported for "'' @ resourceType @
                     ''" on this FHIR server''))
       else
         and_then
           (if resourceType = ''Patient''
            then and_then (array_find (name_is ''_id'') searchParam) (\<lambda>hit. Inr (truthy hit))
            else Inr False) (\<lambda>use_id.
         if use_id then Inr ''_id''
         else
           and_then
             (find_first
                (\<lambda>p. and_then (array_find (name_is p) searchParam) (\<lambda>hit. Inr (truthy hit)))
                patientParams) (\<lambda>out.
           case out of
             None \<Rightarrow> Inl (Error (''I don't know what param to use for '' @ resourceType))
           | Some p \<Rightarrow>
               if p = [] then
                 Inl (Error (''I don't know what param to use for '' @ resourceType))
               else Inr p)))))\<close>

text \<open>
  The reading of a conformance statement. Its resource descriptors and their search
  parameters are objects (not \<^verbatim>\<open>null\<close> or \<^verbatim>\<open>undefined\<close>), and the name of a search parameter,
  when it has one, is a string. The descriptor of a resource type is the first one of
  that type; it declares a parameter name when one of its search parameters has that name.
\<close>

fun is_nullish :: "jsval \<Rightarrow> bool" where
  "is_nullish JUndefined = True"
| "is_nullish JNull = True"
| "is_nullish v = False"

definition has_type :: "string \<Rightarrow> jsval \<Rightarrow> bool" where
  "has_type resourceType r = (get_prop r ''type'' = Inr (JStr resourceType))"

definition has_name :: "string \<Rightarrow> jsval \<Rightarrow> bool" where
  "has_name p x = (get_prop x ''name'' = Inr (JStr p))"

definition named_or_nameless :: "jsval \<Rightarrow> bool" where
  "named_or_nameless x =
     (case get_prop x ''name'' of
        Inr (JStr s) \<Rightarrow> True
      | Inr JUndefined \<Rightarrow> True
      | _ \<Rightarrow> False)"

definition declares :: "jsval list \<Rightarrow> string \<Rightarrow> bool" where
  "declares params p = list_ex (has_name p) params"

text \<open>
  Modelled from the spec: "a fixed, priority-ordered list of canonical patient-scoping
  parameter names" (the settings module is not among the sources); a list of such names
  for the examples, and a conformance statement for them.
\<close>

definition example_patientParams :: "string list" where
  "example_patientParams =
     [''patient'', ''subject'', ''requester'', ''member'', ''actor'', ''beneficiary'']"

definition example_patient :: jsval where
  "example_patient =
     JObj [(''type'', JStr ''Patient''),
       (''searchParam'', JArr
          [JObj [(''name'', JStr ''subject'')], JObj [(''name'', JStr ''_id'')]] [])]"

definition example_observation :: jsval where
  "example_observation =
     JObj [(''type'', JStr ''Observation''),
       (''searchParam'', JArr
          [JObj [(''name'', JStr ''code'')], JObj [(''name'', JStr ''subject'')],
           JObj [(''name'', JStr ''patient'')]] [])]"

definition example_medication :: jsval where
  "example_medication =
     JObj [(''type'', JStr ''Medication''),
       (''searchParam'', JArr [JObj [(''name'', JStr ''code'')]] [])]"

definition example_binary :: jsval where
  "example_binary = JObj [(''type'', JStr ''Binary'')]"

definition example_conformance :: jsval where
  "example_conformance =
     JObj [(''resourceType'', JStr ''CapabilityStatement''),
       (''rest'', JArr
          [JObj [(''mode'', JStr ''server''),
             (''resource'', JArr
                [example_patient, example_observation, example_medication, example_binary]
                [])]] [])]"

subsection \<open>The request pipeline\<close>

text \<open>
  \<^verbatim>\<open>loweCaseKeys\<close>: a falsy value is returned as it is; an array is mapped, its objects and
  arrays being converted in turn; any other value yields a new object with the own keys of
  the value in lower case, a later key replacing an earlier one of the same lower-case
  spelling.
\<close>

fun entries :: "jsval \<Rightarrow> (string \<times> jsval) list" where
  "entries (JObj kvs) = map (\<lambda>k. (k, lookup kvs k)) (remdups (map fst kvs))"
| "entries (JArr xs ps) =
     map (\<lambda>i. (show_nat i, xs ! i)) [0..<length xs] @
     map (\<lambda>k. (k, lookup ps k)) (remdups (map fst ps))"
| "entries (JStr s) = map (\<lambda>i. (show_nat i, JStr [s ! i])) [0..<length s]"
| "entries v = []"

fun loweCaseKeys :: "jsval \<Rightarrow> jsval"
  and lower_elements :: "jsval list \<Rightarrow> jsval list"
  and lower_entries ::
    "string list \<Rightarrow> (string \<times> jsval) list \<Rightarrow> (string \<times> jsval) list \<Rightarrow> (string \<times> jsval) list"
where
  "loweCaseKeys (JObj kvs) = JObj (lower_entries [] [] kvs)"
| "loweCaseKeys (JArr xs ps) = JArr (lower_elements xs) []"
| "loweCaseKeys (JStr s) = (if s = [] then JStr s else JObj (entries (JStr s)))"
| "loweCaseKeys (JNum n) = (if n = 0 then JNum n else JObj [])"
| "loweCaseKeys (JBool b) = (if b then JObj [] else JBool b)"
| "loweCaseKeys JNull = JNull"
| "loweCaseKeys JUndefined = JUndefined"
| "lower_elements [] = []"
| "lower_elements (v # vs) =
     (if is_container v then loweCaseKeys v else v) # lower_elements vs"
| "lower_entries seen out [] = out"
| "lower_entries seen out ((k, v) # kvs) =
     lower_entries (k # seen)
       (if k \<in> set seen then out
        else put_own (toLowerCase k) (if is_container v then loweCaseKeys v else v) out)
       kvs"

text \<open>
  The options of a request, after the type \<^verbatim>\<open>FetchOptions\<close>: the fields the pipeline reads
  or sets, and the remaining ones, which it passes on. \<open>None\<close> is an absent field.
\<close>

record 'a request_options =
  includeResponse :: bool
  req_method :: "string option"
  req_body :: "jsval option"
  req_headers :: jsval
  req_mode :: "string option"
  req_other :: 'a

text \<open>
  The second argument of \<^verbatim>\<open>fetch\<close>:
  \<^verbatim>\<open>{mode: "cors", ...options, headers: {accept: "application/json", ...loweCaseKeys(options.headers)}}\<close>.
\<close>

record 'a fetch_init =
  init_mode :: string
  init_method :: "string option"
  init_body :: "jsval option"
  init_headers :: jsval
  init_other :: 'a

definition make_init :: "'a request_options \<Rightarrow> 'a fetch_init" where
  "make_init options =
     \<lparr>init_mode = (case req_mode options of Some m \<Rightarrow> m | None \<Rightarrow> ''cors''),
      init_method = req_method options,
      init_body = req_body options,
      init_headers =
        JObj (foldl (\<lambda>acc kv. put_own (fst kv) (snd kv) acc)
                [(''accept'', JStr ''application/json'')]
                (entries (loweCaseKeys (req_headers options)))),
      init_other = req_other options\<rparr>"

text \<open>
  A response: \<^verbatim>\<open>res.ok\<close> holds for a status from 200 to 299; \<^verbatim>\<open>res.headers.get\<close> finds a
  header whatever the letter case of its name.
\<close>

definition response_ok :: "response \<Rightarrow> bool" where
  "response_ok res = (200 \<le> status res \<and> status res \<le> 299)"

definition headers_get :: "response \<Rightarrow> string \<Rightarrow> string option" where
  "headers_get res name =
     map_of (map (\<lambda>kv. (toLowerCase (fst kv), snd kv)) (headers res)) (toLowerCase name)"

definition checkResponse :: "response \<Rightarrow> js_error + response" where
  "checkResponse resp = (if \<not> response_ok resp then Inl (HttpError resp) else Inr resp)"

text \<open>
  The body by content type: \<^verbatim>\<open>await res.json()\<close>, which parses the text of the body,
  \<^verbatim>\<open>await res.text()\<close>, or \<^verbatim>\<open>undefined\<close>. An absent content type reads as the text \<^verbatim>\<open>null\<close>.
\<close>

definition read_body :: "platform \<Rightarrow> response \<Rightarrow> js_error + jsval" where
  "read_body plat res =
     (let type = (case headers_get res ''content-type'' of Some t \<Rightarrow> t | None \<Rightarrow> ''null'')
      in if matches_word ''json'' type then JSON_parse plat (body_text res)
         else if matches_word ''text'' type then Inr (JStr (body_text res))
         else Inr JUndefined)"

datatype fetch_result =
    Body jsval
  | RawResponse response
  | BodyAndResponse jsval response

definition deliver :: "bool \<Rightarrow> jsval \<Rightarrow> response \<Rightarrow> fetch_result" where
  "deliver include_response body res =
     (if include_response then BodyAndResponse body res
      else if body = JUndefined then RawResponse res
      else Body body)"

text \<open>
  \<^verbatim>\<open>request\<close>, over a network \<open>fetch\<close> that answers a URL and an init with a response or a
  rejection and moves to a new state. A reply 201 with a falsy body and a non-empty
  \<^verbatim>\<open>location\<close> header makes the function call itself on that location; a server may answer
  so forever, hence the result is optional: \<open>None\<close> is a promise that never settles.
\<close>

type_synonym ('n, 'a) fetcher = "'n \<Rightarrow> string \<Rightarrow> 'a fetch_init \<Rightarrow> (js_error + response) \<times> 'n"

partial_function (option) request ::
  "platform \<Rightarrow> ('n, 'a) fetcher \<Rightarrow> 'n \<Rightarrow> string \<Rightarrow> 'a request_options \<Rightarrow>
     ((js_error + fetch_result) \<times> 'n) option" where
  "request plat fetch net url requestOptions =
     (case fetch net url (make_init requestOptions) of
        (Inl e, net') \<Rightarrow> Some (Inl e, net')
      | (Inr resp, net') \<Rightarrow>
          (case checkResponse resp of
             Inl e \<Rightarrow> Some (Inl e, net')
           | Inr res \<Rightarrow>
               (case read_body plat res of
                  Inl e \<Rightarrow> Some (Inl e, net')
                | Inr body \<Rightarrow>
                    (case (if \<not> truthy body \<and> status res = 201
                           then headers_get res ''location'' else None) of
                       Some location \<Rightarrow>
                         if location \<noteq> [] then
                           request plat fetch net' location
                             (requestOptions\<lparr>req_method := Some ''GET'', req_body := Some JNull\<rparr>)
                         else Some (Inr (deliver (includeResponse requestOptions) body res), net')
                     | None \<Rightarrow>
                         Some (Inr (deliver (includeResponse requestOptions) body res), net')))))"

text \<open>
  A network for the examples; its state counts the calls of \<^verbatim>\<open>fetch\<close>. \<^verbatim>\<open>/Patient\<close> answers
  201 with a JSON content type, an empty body and a location; \<^verbatim>\<open>/text\<close> and \<^verbatim>\<open>/step2\<close>
  answer 201 with an empty body, a location and a content type that is not JSON;
  \<^verbatim>\<open>/Patient/1\<close> answers a GET with a JSON body; every other call is rejected.
\<close>

definition created_json :: response where
  "created_json =
     \<lparr>status = 201,
      headers = [(''Content-Type'', ''application/json''), (''Location'', ''/Patient/1'')],
      body_text = []\<rparr>"

definition created_text :: response where
  "created_text =
     \<lparr>status = 201,
      headers = [(''Content-Type'', ''text/plain''), (''Location'', ''/step2'')],
      body_text = []\<rparr>"

definition created_untyped :: response where
  "created_untyped =
     \<lparr>status = 201, headers = [(''Location'', ''/Patient/1'')], body_text = []\<rparr>"

definition found_patient :: response where
  \<open>found_patient =
     \<lparr>status = 200, headers = [(''content-type'', ''application/fhir+json'')],
      body_text = ''{"sub":"abc"}''\<rparr>\<close>

definition example_fetch :: "(nat, unit) fetcher" where
  "example_fetch n url init =
     (if url = ''/Patient'' then (Inr created_json, Suc n)
      else if url = ''/text'' then (Inr created_text, Suc n)
      else if url = ''/step2'' then (Inr created_untyped, Suc n)
      else if url = ''/Patient/1'' \<and> init_method init = Some ''GET''
        then (Inr found_patient, Suc n)
      else (Inl TypeError, Suc n))"

definition example_post :: "unit request_options" where
  "example_post =
     \<lparr>includeResponse = False, req_method = Some ''POST'',
      req_body = Some (JStr ''{}''), req_headers = JUndefined, req_mode = None,
      req_other = ()\<rparr>"

subsection \<open>The per-URL cache\<close>

text \<open>
  The module-level \<^verbatim>\<open>cache\<close> with the calls of \<^verbatim>\<open>request\<close> made so far. A promise of
  \<^verbatim>\<open>request\<close> is named by the index of the call that produced it; two callers that hold the
  same index hold the same promise and observe the same settlement. \<^verbatim>\<open>getAndCache\<close> is
  synchronous: it runs to its end before any other caller runs and before any promise
  settles, and a settlement does not touch the cache, so concurrent callers are a sequence
  of calls.

  The cache is a plain object, \<^verbatim>\<open>{}\<close>, used as a dictionary. Its own entries are the
  promises stored under URLs. It also inherits the properties of \<^verbatim>\<open>Object.prototype\<close>, and
  \<^verbatim>\<open>cache["__proto__"] = promise\<close> does not create an entry but makes the promise the
  prototype of the cache, which then inherits the methods of promises as well.
\<close>

record 'o cache_state =
  cache :: "string \<Rightarrow> nat option"
  cache_proto :: "nat option"
  issued :: "(string \<times> 'o) list"

definition promise_prototype_names :: "string list" where
  "promise_prototype_names = [''then'', ''catch'', ''finally'']"

text \<open>
  \<^verbatim>\<open>cache[url]\<close>: a stored promise, a member found on the prototype chain (a function, or
  the prototype itself for \<^verbatim>\<open>__proto__\<close>), or \<^verbatim>\<open>undefined\<close>. Only the last one is falsy.
\<close>

datatype cached = Entry nat | Member string | Missing

definition cache_get :: "'o cache_state \<Rightarrow> string \<Rightarrow> cached" where
  "cache_get st url =
     (if url = ''__proto__'' then
        (case cache_proto st of Some p \<Rightarrow> Entry p | None \<Rightarrow> Member url)
      else
        (case cache st url of
           Some p \<Rightarrow> Entry p
         | None \<Rightarrow>
             if url \<in> set object_prototype_names \<or>
                (cache_proto st \<noteq> None \<and> url \<in> set promise_prototype_names)
             then Member url else Missing))"

text \<open>\<^verbatim>\<open>cache[url] = promise\<close>.\<close>

definition cache_put :: "'o cache_state \<Rightarrow> string \<Rightarrow> nat \<Rightarrow> 'o cache_state" where
  "cache_put st url p =
     (if url = ''__proto__'' then st\<lparr>cache_proto := Some p\<rparr>
      else st\<lparr>cache := (cache st)(url \<mapsto> p)\<rparr>)"

text \<open>
  What a caller is handed: the promise of a request, or a new promise that is already
  fulfilled, with an inherited member or with \<^verbatim>\<open>undefined\<close>. \<open>resolve\<close> is \<^verbatim>\<open>Promise.resolve\<close>,
  which returns a promise as it is.
\<close>

datatype promise = OfRequest nat | OfMember string | OfUndefined

fun resolve :: "cached \<Rightarrow> promise" where
  "resolve (Entry p) = OfRequest p"
| "resolve (Member m) = OfMember m"
| "resolve Missing = OfUndefined"

text \<open>
  \<^verbatim>\<open>getAndCache\<close>. When \<^verbatim>\<open>force\<close> is set or \<^verbatim>\<open>cache[url]\<close> is falsy, it stores the new promise
  of \<^verbatim>\<open>request(url, requestOptions)\<close> and returns what it reads back from \<^verbatim>\<open>cache[url]\<close>,
  which is that promise (lemma \<open>cache_put_get\<close>); otherwise it returns
  \<^verbatim>\<open>Promise.resolve(cache[url])\<close>.
\<close>

definition getAndCache ::
  "string \<Rightarrow> 'o \<Rightarrow> bool \<Rightarrow> 'o cache_state \<Rightarrow> promise \<times> 'o cache_state" where
  "getAndCache url requestOptions force st =
     (if force \<or> cache_get st url = Missing then
        (let st1 = cache_put (st\<lparr>issued := issued st @ [(url, requestOptions)]\<rparr>) url
                     (length (issued st))
         in (resolve (cache_get st1 url), st1))
      else (resolve (cache_get st url), st))"

text \<open>The default of \<^verbatim>\<open>force\<close> is \<^verbatim>\<open>process.env.NODE_ENV === "test"\<close>.\<close>

definition getAndCache_default ::
  "string \<Rightarrow> string \<Rightarrow> 'o \<Rightarrow> 'o cache_state \<Rightarrow> promise \<times> 'o cache_state" where
  "getAndCache_default node_env url requestOptions st =
     getAndCache url requestOptions (node_env = ''test'') st"

text \<open>A sequence of calls \<open>(url, options, force)\<close>, with the promises they return.\<close>

fun run_calls ::
  "(string \<times> 'o \<times> bool) list \<Rightarrow> 'o cache_state \<Rightarrow> promise list \<times> 'o cache_state" where
  "run_calls [] st = ([], st)"
| "run_calls (c # cs) st =
     (case getAndCache (fst c) (fst (snd c)) (snd (snd c)) st of
        (p, st1) \<Rightarrow> (case run_calls cs st1 of (ps, st2) \<Rightarrow> (p # ps, st2)))"

definition requests_for :: "string \<Rightarrow> 'o cache_state \<Rightarrow> nat" where
  "requests_for url st = length (filter (\<lambda>r. fst r = url) (issued st))"

text \<open>A call that forces the URL, and the promises returned to the callers on the URL.\<close>

definition forces :: "string \<Rightarrow> string \<times> 'o \<times> bool \<Rightarrow> bool" where
  "forces url c = (fst c = url \<and> snd (snd c))"

definition promises_for ::
  "string \<Rightarrow> (string \<times> 'o \<times> bool) list \<Rightarrow> promise list \<Rightarrow> promise list" where
  "promises_for url calls ps = map snd (filter (\<lambda>cp. fst (fst cp) = url) (zip calls ps))"

text \<open>The cache when the module is loaded.\<close>

definition empty_cache :: "unit cache_state" where
  "empty_cache = \<lparr>cache = (\<lambda>url. None), cache_proto = None, issued = []\<rparr>"

text \<open>
  Example calls: three callers on one URL, with a caller on another URL in between; and
  three callers on a URL that names an inherited property.
\<close>

definition example_calls :: "(string \<times> unit \<times> bool) list" where
  "example_calls =
     [(''/metadata'', (), False), (''/other'', (), False),
      (''/metadata'', (), False), (''/metadata'', (), False)]"

definition inherited_calls :: "(string \<times> unit \<times> bool) list" where
  "inherited_calls =
     [(''constructor'', (), False), (''constructor'', (), False), (''constructor'', (), False)]"

(*PROPERTIES*)

section \<open>Properties\<close>

text \<open>The equations that decide, for a concrete value and key, whether the key is inherited.\<close>

lemmas prototype_examples =
  inherited_def object_prototype_names_def array_prototype_names_def
  string_prototype_names_def number_prototype_names_def

subsection \<open>The target window resolver\<close>

lemma object_guard:
  "(truthy_target t \<and> typeof_target t = ''object'') = (\<exists>w. t = TObject w)"
  by (cases t) auto

lemma string_guard: "(typeof_target t = ''string'') = (\<exists>s. t = TString s)"
  by (cases t) auto

lemma open_or_self_returns: "\<exists>w. fst (open_or_self env features msg) = Inr w"
  by (auto simp: open_or_self_def split: sum.splits option.splits)

lemma open_or_self_fallback:
  "\<forall>w. window_open env [] ''SMARTAuthPopup'' features \<noteq> Inr (Some w) \<Longrightarrow>
   fst (open_or_self env features msg) = Inr (self env)"
  by (auto simp: open_or_self_def split: sum.splits option.splits)

lemma resolve_target_returns: "\<exists>w. fst (resolve_target env t width height) = Inr w"
  using open_or_self_returns
  by (auto simp: resolve_target_def split: target.splits option.splits)

text \<open>
  Claim C1, as stated, fails: a function target whose invocation throws (or whose promise
  rejects) makes \<^verbatim>\<open>getTargetWindow\<close> reject with that error, since the invocation is not
  guarded.
\<close>

theorem getTargetWindow_function_failure:
  "fst (getTargetWindow example_browser (TFunction (Inl (Error ''no surface''))) 800 720)
     = Inl (Error ''no surface'')"
  by (simp add: getTargetWindow_def)

text \<open>
  Claim C1, amended: whenever the target is not a function, or is a function whose
  invocation completes with a target \<open>t\<close>, \<^verbatim>\<open>getTargetWindow\<close> returns a window and does not
  raise. It returns the current window \<^verbatim>\<open>self\<close> when \<open>t\<close> is neither a window-like object
  nor a string (an invalid type), when \<open>t\<close> is \<^verbatim>\<open>"_blank"\<close> or \<^verbatim>\<open>"popup"\<close> and
  \<^verbatim>\<open>window.open\<close> throws or returns null, and when \<open>t\<close> is any other string that names no
  frame.
\<close>

theorem getTargetWindow_degrades_to_self:
  assumes "await_target tgt = Inr t"
  shows "(\<exists>w. fst (getTargetWindow env tgt width height) = Inr w) \<and>
    ((\<forall>w. t \<noteq> TObject w) \<and> (\<forall>s. t \<noteq> TString s) \<longrightarrow>
       fst (getTargetWindow env tgt width height) = Inr (self env)) \<and>
    (t = TString ''_blank'' \<and>
       (\<forall>w. window_open env [] ''SMARTAuthPopup'' None \<noteq> Inr (Some w)) \<longrightarrow>
       fst (getTargetWindow env tgt width height) = Inr (self env)) \<and>
    (t = TString ''popup'' \<and>
       (\<forall>w. window_open env [] ''SMARTAuthPopup'' (Some (popup_features env width height))
              \<noteq> Inr (Some w)) \<longrightarrow>
       fst (getTargetWindow env tgt width height) = Inr (self env)) \<and>
    ((\<exists>s. t = TString s \<and> s \<notin> {''_self'', ''_parent'', ''_top'', ''_blank'', ''popup''} \<and>
          frames env s = None) \<longrightarrow>
       fst (getTargetWindow env tgt width height) = Inr (self env))"
proof -
  have eq: "getTargetWindow env tgt width height = resolve_target env t width height"
    using assms by (simp add: getTargetWindow_def)
  have a: "\<exists>w. fst (resolve_target env t width height) = Inr w"
    by (rule resolve_target_returns)
  have b: "(\<forall>w. t \<noteq> TObject w) \<and> (\<forall>s. t \<noteq> TString s) \<longrightarrow>
       fst (resolve_target env t width height) = Inr (self env)"
    by (cases t) (auto simp: resolve_target_def)
  have c: "t = TString ''_blank'' \<and>
       (\<forall>w. window_open env [] ''SMARTAuthPopup'' None \<noteq> Inr (Some w)) \<longrightarrow>
       fst (resolve_target env t width height) = Inr (self env)"
    using open_or_self_fallback [of env None] by (auto simp: resolve_target_def)
  have d: "t = TString ''popup'' \<and>
       (\<forall>w. window_open env [] ''SMARTAuthPopup'' (Some (popup_features env width height))
              \<noteq> Inr (Some w)) \<longrightarrow>
       fst (resolve_target env t width height) = Inr (self env)"
    using open_or_self_fallback [of env "Some (popup_features env width height)"]
    by (auto simp: resolve_target_def)
  have e: "(\<exists>s. t = TString s \<and>
          s \<notin> {''_self'', ''_parent'', ''_top'', ''_blank'', ''popup''} \<and>
          frames env s = None) \<longrightarrow>
       fst (resolve_target env t width height) = Inr (self env)"
    by (auto simp: resolve_target_def)
  show ?thesis unfolding eq using a b c d e by blast
qed

theorem getTargetWindow_degrades_to_self_witness:
  "fst (getTargetWindow blocked_browser (TString ''popup'') 800 720) = Inr 0 \<and>
   fst (getTargetWindow throwing_browser (TFunction (Inr (TString ''_blank''))) 800 720) = Inr 0 \<and>
   fst (getTargetWindow example_browser (TFunction (Inr (TNumber 3))) 800 720) = Inr 0 \<and>
   fst (getTargetWindow example_browser (TString ''no such frame'') 800 720) = Inr 0"
  using
    getTargetWindow_degrades_to_self
      [of "TString ''popup''" "TString ''popup''" blocked_browser 800 720]
    getTargetWindow_degrades_to_self
      [of "TFunction (Inr (TString ''_blank''))" "TString ''_blank''" throwing_browser 800 720]
    getTargetWindow_degrades_to_self
      [of "TFunction (Inr (TNumber 3))" "TNumber 3" example_browser 800 720]
    getTargetWindow_degrades_to_self
      [of "TString ''no such frame''" "TString ''no such frame''" example_browser 800 720]
  by (simp add: blocked_browser_def throwing_browser_def example_browser_def)

subsection \<open>The token helpers\<close>

lemma split_on_no_sep: "c \<notin> set s \<Longrightarrow> split_on c s = [s]"
  by (induction s) auto

lemma split_on_first: "c \<notin> set h \<Longrightarrow> split_on c (h @ c # t) = h # split_on c t"
  by (induction h) auto

lemma split_on_segment:
  "c \<notin> set p \<Longrightarrow> rest = [] \<or> hd rest = c \<Longrightarrow> \<exists>ss. split_on c (p @ rest) = p # ss"
proof (cases rest)
  case Nil
  assume "c \<notin> set p"
  with Nil show ?thesis by (simp add: split_on_no_sep)
next
  case (Cons r rs)
  assume "c \<notin> set p" and "rest = [] \<or> hd rest = c"
  with Cons show ?thesis by (simp add: split_on_first)
qed

lemmas token_examples =
  jwtDecode_def second_def example_platform_def browser_adapter_def base64_atob_def
  strip_padding_def ascii_blank_def b64_value_def example_json_table_def char_of_eq_iff

text \<open>
  Claim C2, as stated, fails: \<^verbatim>\<open>jwtDecode\<close> has no \<^verbatim>\<open>try\<close>, so it raises whatever
  \<^verbatim>\<open>env.atob\<close> or \<^verbatim>\<open>JSON.parse\<close> raise. The token \<^verbatim>\<open>a.b.c\<close> has the second segment \<^verbatim>\<open>b\<close>,
  which is not base64; the second segment of \<^verbatim>\<open>opaque.YQ==\<close> decodes to the text \<^verbatim>\<open>a\<close>,
  which is not JSON.
\<close>

theorem jwtDecode_malformed_token_raises:
  "jwtDecode example_platform browser_adapter ''a.b.c'' = Inl InvalidCharacterError \<and>
   jwtDecode example_platform browser_adapter ''opaque.YQ=='' = Inl SyntaxError"
  by (simp add: token_examples)

text \<open>
  Claim C2, amended: \<^verbatim>\<open>jwtDecode(token, env)\<close> returns \<^verbatim>\<open>null\<close> when the token has no dot
  and when the segment after its first dot is empty; when that segment \<open>p\<close> is not empty,
  it returns what \<^verbatim>\<open>JSON.parse(env.atob(p))\<close> returns and raises what \<^verbatim>\<open>env.atob\<close> or
  \<^verbatim>\<open>JSON.parse\<close> raises there.
\<close>

theorem jwtDecode_second_segment:
  "(CHR ''.'' \<notin> set token \<longrightarrow> jwtDecode plat env token = Inr JNull) \<and>
   (CHR ''.'' \<notin> set h \<and> (rest = [] \<or> hd rest = CHR ''.'') \<longrightarrow>
      jwtDecode plat env (h @ ''.'' @ rest) = Inr JNull) \<and>
   (CHR ''.'' \<notin> set h \<and> CHR ''.'' \<notin> set p \<and> p \<noteq> [] \<and> (rest = [] \<or> hd rest = CHR ''.'') \<longrightarrow>
      jwtDecode plat env (h @ ''.'' @ p @ rest) =
        (case atob env p of Inl e \<Rightarrow> Inl e | Inr text \<Rightarrow> JSON_parse plat text))"
proof (intro conjI impI)
  assume "CHR ''.'' \<notin> set token"
  then show "jwtDecode plat env token = Inr JNull"
    by (simp add: jwtDecode_def second_def split_on_no_sep)
next
  assume a: "CHR ''.'' \<notin> set h \<and> (rest = [] \<or> hd rest = CHR ''.'')"
  then obtain ss where "split_on CHR ''.'' ([] @ rest) = [] # ss"
    using split_on_segment [of "CHR ''.''" "[]" rest] by auto
  with a show "jwtDecode plat env (h @ ''.'' @ rest) = Inr JNull"
    by (simp add: jwtDecode_def second_def split_on_first)
next
  assume a: "CHR ''.'' \<notin> set h \<and> CHR ''.'' \<notin> set p \<and> p \<noteq> [] \<and>
    (rest = [] \<or> hd rest = CHR ''.'')"
  then obtain ss where "split_on CHR ''.'' (p @ rest) = p # ss"
    using split_on_segment [of "CHR ''.''" p rest] by auto
  with a show "jwtDecode plat env (h @ ''.'' @ p @ rest) =
        (case atob env p of Inl e \<Rightarrow> Inl e | Inr text \<Rightarrow> JSON_parse plat text)"
    by (simp add: jwtDecode_def second_def split_on_first)
qed

theorem jwtDecode_second_segment_witness:
  "jwtDecode example_platform browser_adapter ''opaque-token'' = Inr JNull \<and>
   jwtDecode example_platform browser_adapter ''head..signature'' = Inr JNull \<and>
   jwtDecode example_platform browser_adapter ''h.eyJzdWIiOiJhYmMifQ.s''
     = Inr (JObj [(''sub'', JStr ''abc'')])"
  using
    jwtDecode_second_segment
      [of "''opaque-token''" example_platform browser_adapter
          "''head''" "''.signature''" "''eyJzdWIiOiJhYmMifQ''"]
    jwtDecode_second_segment
      [of "''x''" example_platform browser_adapter "''h''" "''.s''" "''eyJzdWIiOiJhYmMifQ''"]
  by (simp add: token_examples)

text \<open>
  Claim C3, as stated, fails: a token response whose \<^verbatim>\<open>expires_in\<close> is present with the
  value 0 does not yield \<^verbatim>\<open>now + expires_in\<close>; the test \<^verbatim>\<open>if (tokenResponse.expires_in)\<close>
  is a truthiness test, and the function falls through to its other options.
\<close>

theorem getAccessTokenExpiration_zero_expires_in:
  "getAccessTokenExpiration example_platform browser_adapter
      \<lparr>expires_in = Some 0, access_token = None\<rparr> = Inr (JNum 1600000300) \<and>
   Date_now example_platform div 1000 + 0 = 1600000000"
  by (simp add: getAccessTokenExpiration_def expiration_from_token_def example_platform_def)

text \<open>
  Claim C3, amended. With \<open>now\<close> the clock in whole seconds,
  \<^verbatim>\<open>getAccessTokenExpiration\<close> returns \<open>now + expires_in\<close> whenever \<^verbatim>\<open>expires_in\<close> is present
  and not zero. Otherwise, when the access token is present and not empty, \<^verbatim>\<open>jwtDecode\<close>
  returns a truthy body for it and the body's \<^verbatim>\<open>exp\<close> is truthy, it returns that \<^verbatim>\<open>exp\<close>.
  Otherwise, when the access token is absent or empty, or \<^verbatim>\<open>jwtDecode\<close> returns \<^verbatim>\<open>null\<close> or a
  body without a truthy \<^verbatim>\<open>exp\<close>, it returns \<open>now + 300\<close>. (What happens when \<^verbatim>\<open>jwtDecode\<close>
  raises is not part of the statement.)
\<close>

theorem getAccessTokenExpiration_priority:
  "(expires_in tr = Some n \<and> n \<noteq> 0 \<longrightarrow>
      getAccessTokenExpiration plat env tr = Inr (JNum (Date_now plat div 1000 + n))) \<and>
   ((expires_in tr = None \<or> expires_in tr = Some 0) \<and>
    access_token tr = Some token \<and> token \<noteq> [] \<and>
    jwtDecode plat env token = Inr body \<and> truthy body \<and>
    get_prop body ''exp'' = Inr claim \<and> truthy claim \<longrightarrow>
      getAccessTokenExpiration plat env tr = Inr claim) \<and>
   ((expires_in tr = None \<or> expires_in tr = Some 0) \<and>
    (access_token tr = None \<or> access_token tr = Some [] \<or>
     (access_token tr = Some token \<and> jwtDecode plat env token = Inr body \<and>
      (\<not> truthy body \<or> (get_prop body ''exp'' = Inr claim \<and> \<not> truthy claim)))) \<longrightarrow>
      getAccessTokenExpiration plat env tr = Inr (JNum (Date_now plat div 1000 + 300)))"
  by (auto simp: getAccessTokenExpiration_def expiration_from_token_def Let_def)

theorem getAccessTokenExpiration_priority_witness:
  "getAccessTokenExpiration example_platform browser_adapter
      \<lparr>expires_in = Some 3600, access_token = Some ''h.eyJleHAiOjE3MDAwMDAwMDB9.s''\<rparr>
     = Inr (JNum (1600000000 + 3600)) \<and>
   getAccessTokenExpiration example_platform browser_adapter
      \<lparr>expires_in = None, access_token = Some ''h.eyJleHAiOjE3MDAwMDAwMDB9.s''\<rparr>
     = Inr (JNum 1700000000) \<and>
   getAccessTokenExpiration example_platform browser_adapter
      \<lparr>expires_in = None, access_token = Some ''h.eyJzdWIiOiJhYmMifQ.s''\<rparr>
     = Inr (JNum (1600000000 + 300))"
  using
    getAccessTokenExpiration_priority
      [of "\<lparr>expires_in = Some 3600, access_token = Some ''h.eyJleHAiOjE3MDAwMDAwMDB9.s''\<rparr>"
          3600 example_platform browser_adapter]
    getAccessTokenExpiration_priority
      [of "\<lparr>expires_in = None, access_token = Some ''h.eyJleHAiOjE3MDAwMDAwMDB9.s''\<rparr>"
          1 example_platform browser_adapter "''h.eyJleHAiOjE3MDAwMDAwMDB9.s''"
          "JObj [(''exp'', JNum 1700000000)]" "JNum 1700000000"]
    getAccessTokenExpiration_priority
      [of "\<lparr>expires_in = None, access_token = Some ''h.eyJzdWIiOiJhYmMifQ.s''\<rparr>"
          1 example_platform browser_adapter "''h.eyJzdWIiOiJhYmMifQ.s''"
          "JObj [(''sub'', JStr ''abc'')]" "JUndefined"]
  by (simp add: token_examples lookup_def prototype_examples)

subsection \<open>The JSON-patch validator\<close>

lemma and_then_Inr_iff: "(and_then r f = Inr y) = (\<exists>x. r = Inr x \<and> f x = Inr y)"
  by (cases r) (auto simp: and_then_def)

lemma assert_Inr_iff: "(assert c m = Inr u) = c"
  by (simp add: assert_def)

lemma assert_operation_iff:
  "(assert_operation operation = Inr ()) = spec_valid_operation path_truthy operation"
  unfolding assert_operation_def spec_valid_operation_def path_truthy_def
    field_is_def has_field_def field_count_def patch_ops_def
  by (cases "get_prop operation ''op''"; cases "get_prop operation ''path''";
      cases "get_prop operation ''from''"; cases "own_keys operation";
      cases "has_property ''value'' operation")
     (auto simp: and_then_def assert_def)

lemma assert_each_iff:
  "(assert_each ops = Inr ()) = list_all (spec_valid_operation path_truthy) ops"
  by (induction ops) (simp_all add: and_then_Inr_iff assert_operation_iff)

lemmas patch_examples =
  spec_valid_patch_def spec_valid_operation_def path_present_def path_truthy_def
  field_is_def has_field_def field_count_def lookup_def array_index_def canonical_index_def
  all_digits_def is_digit_def prototype_examples

text \<open>
  Claim C8, as stated, fails when "has a path" means that the field is present: the
  document \<^verbatim>\<open>[{op: "replace", path: "", value: 1}]\<close> meets every condition of the claim (the
  empty JSON pointer addresses the whole document), and \<^verbatim>\<open>assertJsonPatch\<close> rejects it,
  because it tests the truthiness of \<^verbatim>\<open>operation.path\<close>.
\<close>

theorem assertJsonPatch_rejects_empty_path:
  \<open>spec_valid_patch path_present
      (JArr [JObj [(''op'', JStr ''replace''), (''path'', JStr []), (''value'', JNum 1)]] []) \<and>
   assertJsonPatch
      (JArr [JObj [(''op'', JStr ''replace''), (''path'', JStr []), (''value'', JNum 1)]] [])
     = Inl (Error ''Invalid "replace" operation. Missing "path" property'')\<close>
  by (simp add: patch_examples assertJsonPatch_def assert_operation_def and_then_def assert_def
      patch_ops_def op_text_def)

text \<open>
  Claim C8, amended: \<^verbatim>\<open>assertJsonPatch\<close> succeeds if and only if the document is a non-empty
  array and every operation has an \<^verbatim>\<open>op\<close> among \<^verbatim>\<open>add\<close>, \<^verbatim>\<open>replace\<close>, \<^verbatim>\<open>test\<close>, \<^verbatim>\<open>move\<close>,
  \<^verbatim>\<open>copy\<close>, \<^verbatim>\<open>remove\<close> and a truthy \<^verbatim>\<open>path\<close> (present, and not the empty string, 0,
  \<^verbatim>\<open>null\<close> or \<^verbatim>\<open>false\<close>), with a \<^verbatim>\<open>value\<close> field and exactly three fields for \<^verbatim>\<open>add\<close>,
  \<^verbatim>\<open>replace\<close> and \<^verbatim>\<open>test\<close>, a string \<^verbatim>\<open>from\<close> and exactly three fields for \<^verbatim>\<open>move\<close> and
  \<^verbatim>\<open>copy\<close>, and exactly two fields for \<^verbatim>\<open>remove\<close>.
\<close>

theorem assertJsonPatch_succeeds_iff:
  "(assertJsonPatch patch = Inr ()) = spec_valid_patch path_truthy patch"
  by (cases patch)
     (simp_all add: assertJsonPatch_def spec_valid_patch_def and_then_Inr_iff assert_Inr_iff
        assert_each_iff assert_def and_then_def)

theorem assertJsonPatch_succeeds_iff_witness:
  "assertJsonPatch
     (JArr [JObj [(''op'', JStr ''add''), (''path'', JStr ''/a''), (''value'', JNum 1)]] [])
     = Inr () \<and>
   assertJsonPatch (JArr [JObj [(''op'', JStr ''add''), (''path'', JStr ''/a'')]] []) \<noteq> Inr () \<and>
   assertJsonPatch (JArr [] []) \<noteq> Inr () \<and>
   assertJsonPatch
     (JArr [JObj [(''op'', JStr ''move''), (''path'', JStr ''/a''), (''value'', JNum 1)]] [])
     \<noteq> Inr () \<and>
   assertJsonPatch
     (JArr [JObj [(''op'', JStr ''remove''), (''path'', JStr ''/a''), (''extra'', JNull)]] [])
     \<noteq> Inr ()"
  using
    assertJsonPatch_succeeds_iff
      [of "JArr [JObj [(''op'', JStr ''add''), (''path'', JStr ''/a''), (''value'', JNum 1)]] []"]
    assertJsonPatch_succeeds_iff
      [of "JArr [JObj [(''op'', JStr ''add''), (''path'', JStr ''/a'')]] []"]
    assertJsonPatch_succeeds_iff [of "JArr [] []"]
    assertJsonPatch_succeeds_iff
      [of "JArr [JObj [(''op'', JStr ''move''), (''path'', JStr ''/a''), (''value'', JNum 1)]] []"]
    assertJsonPatch_succeeds_iff
      [of "JArr [JObj [(''op'', JStr ''remove''), (''path'', JStr ''/a''), (''extra'', JNull)]] []"]
  by (simp add: patch_examples)

subsection \<open>The path accessor\<close>

lemma collect_modelled:
  "(\<And>r. r \<in> set rs \<Longrightarrow> (\<exists>x. r = Inr x) \<or> (\<exists>m. r = Inl (Unmodelled m))) \<Longrightarrow>
   (\<exists>xs. collect rs = Inr xs) \<or> (\<exists>m. collect rs = Inl (Unmodelled m))"
proof (induction rs)
  case Nil
  show ?case by simp
next
  case (Cons r rs)
  from Cons.prems have "(\<exists>x. r = Inr x) \<or> (\<exists>m. r = Inl (Unmodelled m))" by simp
  moreover from Cons have "(\<exists>xs. collect rs = Inr xs) \<or> (\<exists>m. collect rs = Inl (Unmodelled m))"
    by simp
  ultimately show ?case by auto
qed

lemma get_prop_truthy:
  "truthy v \<Longrightarrow> (\<exists>x. get_prop v k = Inr x) \<or> (\<exists>m. get_prop v k = Inl (Unmodelled m))"
  by (cases v) (auto simp: inherited_member_def split: option.splits)

text \<open>The loop of \<^verbatim>\<open>getPath\<close>, with the recursive call of the source written as such.\<close>

lemma getPath_loop_broadcast:
  "getPath_loop (JArr xs ps) ([] # segments) =
     (case collect (map (\<lambda>elem. getPath elem (join ''.'' segments)) xs) of
        Inl e \<Rightarrow> Inl e
      | Inr ys \<Rightarrow> Inr (JArr ys []))"
  by (simp add: getPath_def)

lemma getPath_loop_step:
  "truthy result \<Longrightarrow> \<not> (key = [] \<and> isArray result) \<Longrightarrow>
   getPath_loop result (key # segments) =
     (case get_prop result key of Inl e \<Rightarrow> Inl e | Inr nxt \<Rightarrow> getPath_loop nxt segments)"
  by auto

lemma getPath_loop_falsy: "\<not> truthy result \<Longrightarrow> getPath_loop result segments = Inr result"
  by (cases segments) auto

lemma getPath_loop_modelled:
  "(\<exists>v. getPath_loop result segments = Inr v) \<or>
   (\<exists>m. getPath_loop result segments = Inl (Unmodelled m))"
proof (induction result segments rule: getPath_loop.induct)
  case (1 result)
  show ?case by simp
next
  case (2 result key segments)
  show ?case
  proof (cases "truthy result")
    case False
    then show ?thesis by simp
  next
    case t: True
    show ?thesis
    proof (cases "key = [] \<and> isArray result")
      case True
      then obtain xs ps where r: "result = JArr xs ps" by (cases result) auto
      define f where "f = (\<lambda>elem. if trim (join ''.'' segments) = [] then Inr elem
                               else getPath_loop elem (split_on CHR ''.'' (trim (join ''.'' segments))))"
      have "(\<exists>ys. collect (map f xs) = Inr ys) \<or> (\<exists>m. collect (map f xs) = Inl (Unmodelled m))"
      proof (rule collect_modelled)
        fix r'
        assume "r' \<in> set (map f xs)"
        then obtain elem where e: "elem \<in> set xs" and r': "r' = f elem"
          by auto
        show "(\<exists>x. r' = Inr x) \<or> (\<exists>m. r' = Inl (Unmodelled m))"
        proof (cases "trim (join ''.'' segments) = []")
          case True
          with r' show ?thesis by (simp add: f_def)
        next
          case False
          with "2.IH"(1) [OF _ _ r _ False] t \<open>key = [] \<and> isArray result\<close> e r' show ?thesis
            by (simp add: f_def)
        qed
      qed
      moreover have "getPath_loop result (key # segments) =
          (case collect (map f xs) of Inl e \<Rightarrow> Inl e | Inr ys \<Rightarrow> Inr (JArr ys []))"
        using True r by (simp add: f_def)
      ultimately show ?thesis by auto
    next
      case False
      from t False have s: "getPath_loop result (key # segments) =
          (case get_prop result key of Inl e \<Rightarrow> Inl e | Inr nxt \<Rightarrow> getPath_loop nxt segments)"
        by (rule getPath_loop_step)
      from get_prop_truthy [OF t, of key] show ?thesis
      proof
        assume "\<exists>x. get_prop result key = Inr x"
        then obtain nxt where n: "get_prop result key = Inr nxt" by blast
        with "2.IH"(2) [of nxt] t False s show ?thesis by auto
      next
        assume "\<exists>m. get_prop result key = Inl (Unmodelled m)"
        with s show ?thesis by auto
      qed
    qed
  qed
qed

lemma lookup_put_own: "lookup (put_own k v kvs) k = v"
  by (induction kvs) (auto simp: lookup_def)

lemma put_own_twice: "put_own k c (put_own k d kvs) = put_own k c kvs"
  by (induction kvs) auto

lemma put_own_keys: "k \<in> fst ` set (put_own k v kvs)"
  by (induction kvs) auto

lemma update_past_end:
  "length xs \<le> i \<Longrightarrow>
   (xs @ replicate (i - length xs) u @ [v])[i := w] = xs @ replicate (i - length xs) u @ [w]"
  by (simp add: list_update_append)

lemma get_after_set:
  assumes "is_container out" and "\<not> (isArray out \<and> key = ''length'')"
    and "\<not> inherited out key"
  shows "\<exists>out'. set_prop out key v = Inr out' \<and> get_prop out' key = Inr v \<and>
           is_container out' \<and> isArray out' = isArray out \<and> \<not> inherited out' key \<and>
           (\<forall>w. set_prop out' key w = set_prop out key w)"
proof (cases out)
  case (JObj kvs)
  then show ?thesis using assms(3)
    by (simp add: lookup_put_own inherited_def put_own_keys put_own_twice)
next
  case (JArr xs ps)
  with assms have nl: "key \<noteq> ''length''" by simp
  show ?thesis
  proof (cases "array_index key")
    case None
    with JArr nl assms(3) show ?thesis
      by (simp add: lookup_put_own inherited_def put_own_keys put_own_twice)
  next
    case (Some i)
    with JArr assms(3) show ?thesis
      by (auto simp: nth_append inherited_def update_past_end)
  qed
qed (use assms in simp_all)


lemma writable_container: "writable ce out ks \<Longrightarrow> is_container out"
  by (induction ce out ks rule: writable.induct) auto

lemma container_truthy: "is_container v \<Longrightarrow> truthy v"
  by (cases v) auto

lemma array_length_defined: "isArray out \<Longrightarrow> get_prop out ''length'' \<noteq> Inr JUndefined"
  by (cases out) (auto simp: array_index_def canonical_index_def all_digits_def is_digit_def)

lemma container_not_length:
  "isArray out \<Longrightarrow> get_prop out ''length'' = Inr cur \<Longrightarrow> \<not> is_container cur"
  by (cases out) (auto simp: array_index_def canonical_index_def all_digits_def is_digit_def)

text \<open>One step of the \<^verbatim>\<open>reduce\<close> on a writable path: the child the remaining steps work on,
  and the property holding what they return.\<close>

lemma setPath_reduce_step:
  assumes "writable ce out (key # nk # r)"
  shows "\<exists>cur child. get_prop out key = Inr cur \<and>
    child = (if cur = JUndefined then (if all_digits nk then JArr [] [] else JObj []) else cur) \<and>
    writable ce child (nk # r) \<and>
    (\<forall>child'. setPath_reduce ce v child (nk # r) = Inr child' \<longrightarrow>
       (\<exists>out'. setPath_reduce ce v out (key # nk # r) = Inr out' \<and>
               get_prop out' key = Inr child' \<and> is_container out' \<and>
               isArray out' = isArray out))"
proof -
  from assms have c: "is_container out" and ni: "\<not> inherited out key" by auto
  from c have t: "truthy out" by (rule container_truthy)
  from assms obtain cur where cur: "get_prop out key = Inr cur"
    by (auto split: sum.splits)
  define fresh where "fresh = (if all_digits nk then JArr [] [] else JObj [])"
  define child where "child = (if cur = JUndefined then fresh else cur)"
  from assms cur have w: "writable ce child (nk # r)" and ce: "cur = JUndefined \<longrightarrow> ce"
    by (auto simp: child_def fresh_def split: if_splits)
  then have cc: "is_container child" by (auto dest: writable_container)
  have "\<exists>out1. (if cur = JUndefined \<and> ce then set_prop out key fresh else Inr out) = Inr out1 \<and>
          get_prop out1 key = Inr child \<and> is_container out1 \<and> isArray out1 = isArray out \<and>
          \<not> inherited out1 key"
  proof (cases "cur = JUndefined")
    case True
    with cur array_length_defined have "\<not> (isArray out \<and> key = ''length'')" by auto
    from get_after_set [OF c this ni, of fresh] True ce show ?thesis
      by (auto simp: child_def)
  next
    case False
    with cur c ni show ?thesis by (simp add: child_def)
  qed
  then obtain out1 where
    o1: "(if cur = JUndefined \<and> ce then set_prop out key fresh else Inr out) = Inr out1"
    and ch: "get_prop out1 key = Inr child" and c1: "is_container out1"
    and a1: "isArray out1 = isArray out" and n1: "\<not> inherited out1 key" by blast
  from cc ch container_not_length [of out1 child] have nl: "\<not> (isArray out1 \<and> key = ''length'')"
    by auto
  have store: "\<exists>out'. setPath_reduce ce v out (key # nk # r) = Inr out' \<and>
                  get_prop out' key = Inr child' \<and> is_container out' \<and>
                  isArray out' = isArray out"
    if r: "setPath_reduce ce v child (nk # r) = Inr child'" for child'
  proof -
    from get_after_set [OF c1 nl n1, of child'] obtain out' where
      s: "set_prop out1 key child' = Inr out'" and g': "get_prop out' key = Inr child'"
      and c': "is_container out'" and a': "isArray out' = isArray out1" by blast
    have "setPath_reduce ce v out (key # nk # r) = Inr out'"
      using t cur o1 ch r cc s by (auto simp: fresh_def split: if_splits)
    with g' c' a' a1 show ?thesis by simp
  qed
  have cdef: "child = (if cur = JUndefined then (if all_digits nk then JArr [] [] else JObj []) else cur)"
    by (simp add: child_def fresh_def)
  show ?thesis
    apply (rule exI [of _ cur], rule exI [of _ child])
    apply (intro conjI allI impI)
       apply (rule cur)
      apply (rule cdef)
     apply (rule w)
    apply (erule store)
    done
qed

lemma setPath_reduce_lands:
  "writable ce out ks \<Longrightarrow>
   \<exists>out'. setPath_reduce ce v out ks = Inr out' \<and> getPath_loop out' ks = Inr v \<and>
          is_container out' \<and> isArray out' = isArray out"
proof (induction ce out ks rule: writable.induct)
  case (1 ce out)
  then show ?case by simp
next
  case (2 ce out key)
  then have c: "is_container out" and nl: "\<not> (isArray out \<and> key = ''length'')"
    and ne: "\<not> (isArray out \<and> key = [])" and ni: "\<not> inherited out key" by auto
  from get_after_set [OF c nl ni, of v] obtain out' where
    s: "set_prop out key v = Inr out'" and g: "get_prop out' key = Inr v"
    and c': "is_container out'" and a': "isArray out' = isArray out" by blast
  from c' have t': "truthy out'" by (rule container_truthy)
  from ne a' have "\<not> (key = [] \<and> isArray out')" by blast
  with t' g have "getPath_loop out' [key] = Inr v"
    by (simp add: getPath_loop_step del: getPath_loop.simps(2))
  with s c c' a' show ?case by (simp add: container_truthy)
next
  case (3 ce out key k2 rest)
  from "3.prems" have ne: "\<not> (isArray out \<and> key = [])" by auto
  from setPath_reduce_step [OF "3.prems", of v] obtain cur child where
    cur: "get_prop out key = Inr cur"
    and child: "child = (if cur = JUndefined then (if all_digits k2 then JArr [] [] else JObj []) else cur)"
    and w: "writable ce child (k2 # rest)"
    and store: "\<forall>child'. setPath_reduce ce v child (k2 # rest) = Inr child' \<longrightarrow>
           (\<exists>out'. setPath_reduce ce v out (key # k2 # rest) = Inr out' \<and>
                  get_prop out' key = Inr child' \<and> is_container out' \<and>
                  isArray out' = isArray out)"
    by (elim exE conjE) (rule that)
  have "\<exists>child'. setPath_reduce ce v child (k2 # rest) = Inr child' \<and>
          getPath_loop child' (k2 # rest) = Inr v"
  proof (cases "cur = JUndefined")
    case True
    with child have ch: "child = (if all_digits k2 then JArr [] [] else JObj [])" by simp
    from "3.IH"(1) [OF cur True w [unfolded ch]] show ?thesis unfolding ch by blast
  next
    case False
    with child have ch: "child = cur" by simp
    from "3.IH"(2) [OF cur False w [unfolded ch]] show ?thesis unfolding ch by blast
  qed
  then obtain child' where r: "setPath_reduce ce v child (k2 # rest) = Inr child'"
    and g: "getPath_loop child' (k2 # rest) = Inr v" by blast
  from store r obtain out' where
    s: "setPath_reduce ce v out (key # k2 # rest) = Inr out'"
    and g': "get_prop out' key = Inr child'" and c': "is_container out'"
    and a': "isArray out' = isArray out" by blast
  from c' have "truthy out'" by (rule container_truthy)
  moreover from a' ne have "\<not> (key = [] \<and> isArray out')" by blast
  ultimately have "getPath_loop out' (key # k2 # rest) =
      (case get_prop out' key of Inl e \<Rightarrow> Inl e | Inr nxt \<Rightarrow> getPath_loop nxt (k2 # rest))"
    by (rule getPath_loop_step)
  with g' g have "getPath_loop out' (key # k2 # rest) = Inr v" by simp
  with s c' a' show ?case by blast
qed


text \<open>A write into a container that was just created.\<close>

lemma fresh_get:
  "get_prop (if all_digits k then JArr [] [] else JObj []) k = Inr cur \<Longrightarrow> cur = JUndefined"
  by (auto simp: lookup_def all_digits_def is_digit_def split: option.splits if_splits)

lemma materialized_step:
  "\<not> inherited (if all_digits k then JArr [] [] else JObj []) k \<Longrightarrow>
   set_prop (if all_digits k then JArr [] [] else JObj []) k (materialized v ks)
     = Inr (materialized v (k # ks))"
  by (auto simp: all_digits_def is_digit_def split: option.splits)

lemma setPath_reduce_fresh:
  "writable True (if all_digits k then JArr [] [] else JObj []) (k # ks) \<Longrightarrow>
   setPath_reduce True v (if all_digits k then JArr [] [] else JObj []) (k # ks)
     = Inr (materialized v (k # ks))"
proof (induction ks arbitrary: k)
  case Nil
  then have "\<not> inherited (if all_digits k then JArr [] [] else JObj []) k" by simp
  from materialized_step [OF this, of v "[]"] show ?case by simp
next
  case (Cons k2 rest)
  let ?fresh = "if all_digits k then JArr [] [] else JObj []"
  let ?fresh2 = "if all_digits k2 then JArr [] [] else JObj []"
  from Cons.prems have ni: "\<not> inherited ?fresh k" by simp
  have fc: "is_container ?fresh" and nl: "\<not> (isArray ?fresh \<and> k = ''length'')"
    by (auto simp: all_digits_def is_digit_def)
  from setPath_reduce_step [OF Cons.prems, of v] obtain cur child where
    cur: "get_prop ?fresh k = Inr cur"
    and child: "child = (if cur = JUndefined then ?fresh2 else cur)"
    and w: "writable True child (k2 # rest)"
    by (elim exE conjE) (rule that)
  from cur have u: "cur = JUndefined" by (rule fresh_get)
  with child have ch: "child = ?fresh2" by simp
  from Cons.IH [OF w [unfolded ch]]
  have r: "setPath_reduce True v ?fresh2 (k2 # rest) = Inr (materialized v (k2 # rest))" .
  \<comment> \<open>the created container is stored, and then what the remaining steps made of it\<close>
  from get_after_set [OF fc nl ni, of ?fresh2] obtain out1 where
    o1: "set_prop ?fresh k ?fresh2 = Inr out1" and g1: "get_prop out1 k = Inr ?fresh2"
    and again: "\<forall>w. set_prop out1 k w = set_prop ?fresh k w" by blast
  have t: "truthy ?fresh" and c2: "is_container ?fresh2" by simp_all
  have "setPath_reduce True v ?fresh (k # k2 # rest) =
          set_prop ?fresh k (materialized v (k2 # rest))"
    by (simp only: setPath_reduce.simps t cur u o1 g1 r c2 again
          sum.case if_True if_False simp_thms)
  also have "\<dots> = Inr (materialized v (k # k2 # rest))"
    using ni by (rule materialized_step)
  finally show ?case .
qed

lemma materialized_get: "get_prop (materialized v (k # ks)) k = Inr (materialized v ks)"
  by (auto simp: inherited_def lookup_def nth_append all_digits_def is_digit_def
      split: option.splits)

lemma materialized_read: "getPath_loop (materialized v (ks @ ks2)) ks = Inr (materialized v ks2)"
proof (induction ks)
  case Nil
  show ?case by simp
next
  case (Cons k ks)
  have "truthy (materialized v (k # ks @ ks2))" by (simp split: option.splits)
  moreover have "\<not> (k = [] \<and> isArray (materialized v (k # ks @ ks2)))"
    by (auto simp: all_digits_def split: option.splits)
  ultimately have "getPath_loop (materialized v (k # ks @ ks2)) (k # ks) =
      (case get_prop (materialized v (k # ks @ ks2)) k of
         Inl e \<Rightarrow> Inl e | Inr nxt \<Rightarrow> getPath_loop nxt ks)"
    by (rule getPath_loop_step)
  with Cons show ?case by (simp only: materialized_get append_Cons sum.case)
qed


text \<open>
  A write with \<^verbatim>\<open>createEmpty\<close> through a prefix at which nothing is found: afterwards the
  prefix holds the container built for the rest of the path.
\<close>

lemma setPath_reduce_materializes:
  "writable True obj (ks @ key # k2 # rest) \<Longrightarrow>
   getPath_loop obj (ks @ [key]) = Inr JUndefined \<Longrightarrow>
   \<exists>obj'. setPath_reduce True v obj (ks @ key # k2 # rest) = Inr obj' \<and>
          getPath_loop obj' (ks @ [key]) = Inr (materialized v (k2 # rest))"
proof (induction ks arbitrary: obj)
  case Nil
  from Nil.prems(1) have w: "writable True obj (key # k2 # rest)" by simp
  then have c: "is_container obj" and ne: "\<not> (key = [] \<and> isArray obj)" by auto
  from c have t: "truthy obj" by (rule container_truthy)
  from setPath_reduce_step [OF w, of v] obtain cur child where
    cur: "get_prop obj key = Inr cur"
    and child: "child = (if cur = JUndefined then (if all_digits k2 then JArr [] [] else JObj []) else cur)"
    and wc: "writable True child (k2 # rest)"
    and store: "\<forall>child'. setPath_reduce True v child (k2 # rest) = Inr child' \<longrightarrow>
           (\<exists>out'. setPath_reduce True v obj (key # k2 # rest) = Inr out' \<and>
                  get_prop out' key = Inr child' \<and> is_container out' \<and>
                  isArray out' = isArray obj)"
    by (elim exE conjE) (rule that)
  from t ne have "getPath_loop obj [key] =
      (case get_prop obj key of Inl e \<Rightarrow> Inl e | Inr nxt \<Rightarrow> getPath_loop nxt [])"
    by (rule getPath_loop_step)
  with cur Nil.prems(2) have "cur = JUndefined" by simp
  with child have ch: "child = (if all_digits k2 then JArr [] [] else JObj [])" by simp
  from setPath_reduce_fresh [OF wc [unfolded ch], of v]
  have "setPath_reduce True v child (k2 # rest) = Inr (materialized v (k2 # rest))"
    unfolding ch .
  with store obtain obj' where
    s: "setPath_reduce True v obj (key # k2 # rest) = Inr obj'"
    and g: "get_prop obj' key = Inr (materialized v (k2 # rest))"
    and c': "is_container obj'" and a': "isArray obj' = isArray obj" by blast
  from c' have "truthy obj'" by (rule container_truthy)
  moreover from ne a' have "\<not> (key = [] \<and> isArray obj')" by simp
  ultimately have "getPath_loop obj' [key] =
      (case get_prop obj' key of Inl e \<Rightarrow> Inl e | Inr nxt \<Rightarrow> getPath_loop nxt [])"
    by (rule getPath_loop_step)
  with g have "getPath_loop obj' [key] = Inr (materialized v (k2 # rest))" by simp
  with s show ?case by simp
next
  case (Cons k ks)
  obtain nk r where nk: "ks @ key # k2 # rest = nk # r" by (cases ks) auto
  from Cons.prems(1) have w: "writable True obj (k # nk # r)" by (simp add: nk)
  then have c: "is_container obj" and ne: "\<not> (k = [] \<and> isArray obj)" by auto
  from c have t: "truthy obj" by (rule container_truthy)
  from setPath_reduce_step [OF w, of v] obtain cur child where
    cur: "get_prop obj k = Inr cur"
    and child: "child = (if cur = JUndefined then (if all_digits nk then JArr [] [] else JObj []) else cur)"
    and wc: "writable True child (nk # r)"
    and store: "\<forall>child'. setPath_reduce True v child (nk # r) = Inr child' \<longrightarrow>
           (\<exists>out'. setPath_reduce True v obj (k # nk # r) = Inr out' \<and>
                  get_prop out' k = Inr child' \<and> is_container out' \<and>
                  isArray out' = isArray obj)"
    by (elim exE conjE) (rule that)
  from t ne have "getPath_loop obj (k # ks @ [key]) =
      (case get_prop obj k of Inl e \<Rightarrow> Inl e | Inr nxt \<Rightarrow> getPath_loop nxt (ks @ [key]))"
    by (rule getPath_loop_step)
  with cur Cons.prems(2) have below: "getPath_loop cur (ks @ [key]) = Inr JUndefined" by simp
  have "\<exists>child'. setPath_reduce True v child (nk # r) = Inr child' \<and>
          getPath_loop child' (ks @ [key]) = Inr (materialized v (k2 # rest))"
  proof (cases "cur = JUndefined")
    case True
    with child have ch: "child = (if all_digits nk then JArr [] [] else JObj [])" by simp
    from setPath_reduce_fresh [OF wc [unfolded ch], of v]
    have "setPath_reduce True v child (nk # r) = Inr (materialized v (nk # r))"
      unfolding ch .
    moreover have "getPath_loop (materialized v ((ks @ [key]) @ k2 # rest)) (ks @ [key])
        = Inr (materialized v (k2 # rest))"
      by (rule materialized_read)
    ultimately show ?thesis by (simp add: nk)
  next
    case False
    with child have ch: "child = cur" by simp
    from wc have "writable True cur (ks @ key # k2 # rest)" by (simp add: ch nk)
    from Cons.IH [OF this below] show ?thesis by (simp add: ch nk)
  qed
  then obtain child' where r: "setPath_reduce True v child (nk # r) = Inr child'"
    and g: "getPath_loop child' (ks @ [key]) = Inr (materialized v (k2 # rest))" by blast
  from store r obtain obj' where
    s: "setPath_reduce True v obj (k # nk # r) = Inr obj'"
    and g': "get_prop obj' k = Inr child'" and c': "is_container obj'"
    and a': "isArray obj' = isArray obj" by blast
  from c' have "truthy obj'" by (rule container_truthy)
  moreover from ne a' have "\<not> (k = [] \<and> isArray obj')" by simp
  ultimately have "getPath_loop obj' (k # ks @ [key]) =
      (case get_prop obj' k of Inl e \<Rightarrow> Inl e | Inr nxt \<Rightarrow> getPath_loop nxt (ks @ [key]))"
    by (rule getPath_loop_step)
  with g' g have "getPath_loop obj' (k # ks @ [key]) = Inr (materialized v (k2 # rest))"
    by simp
  with s show ?case by (simp add: nk)
qed

lemma trim_blank: "list_all is_space s \<Longrightarrow> trim s = []"
proof -
  assume "list_all is_space s"
  then have "dropWhile is_space s = []"
    by (induction s) auto
  then show ?thesis by (simp only: trim_def rev.simps dropWhile.simps)
qed

lemmas path_examples =
  getPath_def setPath_def trim_def is_space_def lookup_def array_index_def canonical_index_def
  all_digits_def is_digit_def digits_value_def prototype_examples

text \<open>
  Claim C6 on the code. For the root \<^verbatim>\<open>{a: null}\<close> and the path \<^verbatim>\<open>a.b\<close> the intermediate value
  \<^verbatim>\<open>null\<close> cannot be indexed, and \<^verbatim>\<open>getPath\<close> returns that \<^verbatim>\<open>null\<close>, not \<^verbatim>\<open>undefined\<close>: the
  loop stops at a falsy \<^verbatim>\<open>result\<close> and returns it as it is. The same holds for the
  intermediate values 0, \<^verbatim>\<open>false\<close> and the empty string.
\<close>

theorem getPath_null_intermediate:
  "getPath (JObj [(''a'', JNull)]) ''a.b'' = Inr JNull \<and>
   getPath (JObj [(''a'', JNum 0)]) ''a.b'' = Inr (JNum 0)"
  by (simp add: path_examples)

text \<open>
  \<^verbatim>\<open>getPath\<close> raises no error, whatever the root and the path: it returns a value, unless
  the path reads a property inherited from a built-in prototype, where the model stops.
\<close>

theorem getPath_raises_no_error:
  "(\<exists>v. getPath obj path = Inr v) \<or> (\<exists>m. getPath obj path = Inl (Unmodelled m))"
  using getPath_loop_modelled by (simp add: getPath_def)

text \<open>\<^verbatim>\<open>getPath\<close> returns the root itself for an empty path and for a path of white space.\<close>

theorem getPath_blank_path: "list_all is_space path \<Longrightarrow> getPath obj path = Inr obj"
  by (simp add: getPath_def trim_blank)

theorem getPath_blank_path_witness:
  "getPath (JObj [(''a'', JNum 1)]) [] = Inr (JObj [(''a'', JNum 1)]) \<and>
   getPath (JNum 7) ''   '' = Inr (JNum 7)"
  using getPath_blank_path [of "[]" "JObj [(''a'', JNum 1)]"]
    getPath_blank_path [of "''   ''" "JNum 7"]
  by (simp add: is_space_def)

text \<open>
  Claim C7, as stated, fails. With \<^verbatim>\<open>createEmpty\<close> set, \<^verbatim>\<open>setPath({a: null}, "a.b", 1, true)\<close>
  writes nothing (a \<^verbatim>\<open>null\<close> is not \<^verbatim>\<open>undefined\<close>, so nothing is created) and \<^verbatim>\<open>getPath\<close>
  reads \<^verbatim>\<open>null\<close>. Without it, \<^verbatim>\<open>setPath({}, "a.b", 1)\<close> writes nothing and \<^verbatim>\<open>getPath\<close> reads
  \<^verbatim>\<open>undefined\<close>. And on \<^verbatim>\<open>{a: [{b: 0}]}\<close> the path \<^verbatim>\<open>a..b\<close> is written into a property of the
  array named by the empty string, while \<^verbatim>\<open>getPath\<close> maps \<^verbatim>\<open>b\<close> over the elements.
\<close>

theorem setPath_getPath_no_roundtrip:
  "setPath (JObj [(''a'', JNull)]) ''a.b'' (JNum 1) True = Inr (JObj [(''a'', JNull)]) \<and>
   getPath (JObj [(''a'', JNull)]) ''a.b'' = Inr JNull \<and>
   setPath (JObj []) ''a.b'' (JNum 1) False = Inr (JObj []) \<and>
   getPath (JObj []) ''a.b'' = Inr JUndefined \<and>
   setPath (JObj [(''a'', JArr [JObj [(''b'', JNum 0)]] [])]) ''a..b'' (JNum 1) True
     = Inr (JObj [(''a'', JArr [JObj [(''b'', JNum 0)]] [([], JObj [(''b'', JNum 1)])])]) \<and>
   getPath (JObj [(''a'', JArr [JObj [(''b'', JNum 0)]] [([], JObj [(''b'', JNum 1)])])]) ''a..b''
     = Inr (JArr [JNum 0] [])"
  by (simp add: path_examples)

text \<open>
  Claim C7, amended. Let the path be non-blank and writable in \<^verbatim>\<open>o\<close>: every key but the
  last leads from an object or array to an object or array, or to an \<^verbatim>\<open>undefined\<close> property
  while \<^verbatim>\<open>createEmpty\<close> is set; no key names a property that the object or array it is
  applied to inherits from a built-in prototype (such as \<^verbatim>\<open>constructor\<close> or \<^verbatim>\<open>__proto__\<close>);
  no empty key is read from an array; the last key is not the \<^verbatim>\<open>length\<close> of an array. Then
  \<^verbatim>\<open>setPath(o, p, v, createEmpty)\<close> does not raise, and \<^verbatim>\<open>getPath\<close> reads \<open>v\<close> at \<open>p\<close> from
  the structure it returns. Moreover, when \<^verbatim>\<open>createEmpty\<close> is set, take any prefix of the
  path, ending before the last key, at which \<^verbatim>\<open>getPath\<close> finds \<^verbatim>\<open>undefined\<close> in \<^verbatim>\<open>o\<close>: after
  the write the prefix holds the container materialized for the rest of the path, an
  empty array when the next key is all digits and an empty object otherwise, holding
  nothing but what the rest of the path puts into it, at every depth.
\<close>

theorem setPath_getPath_roundtrip:
  "(trim path \<noteq> [] \<and> writable createEmpty obj (split_on CHR ''.'' (trim path)) \<longrightarrow>
      (\<exists>obj'. setPath obj path v createEmpty = Inr obj' \<and> getPath obj' path = Inr v)) \<and>
   (split_on CHR ''.'' (trim path) = ks @ key # next_key # rest \<and>
    writable True obj (split_on CHR ''.'' (trim path)) \<and>
    trim pre \<noteq> [] \<and> split_on CHR ''.'' (trim pre) = ks @ [key] \<and>
    getPath obj pre = Inr JUndefined \<longrightarrow>
      (\<exists>obj'. setPath obj path v True = Inr obj' \<and>
              getPath obj' pre = Inr (materialized v (next_key # rest))))"
proof (intro conjI impI)
  assume a: "trim path \<noteq> [] \<and> writable createEmpty obj (split_on CHR ''.'' (trim path))"
  with setPath_reduce_lands [of createEmpty obj "split_on CHR ''.'' (trim path)" v]
  show "\<exists>obj'. setPath obj path v createEmpty = Inr obj' \<and> getPath obj' path = Inr v"
    by (auto simp: setPath_def getPath_def)
next
  assume a: "split_on CHR ''.'' (trim path) = ks @ key # next_key # rest \<and>
    writable True obj (split_on CHR ''.'' (trim path)) \<and>
    trim pre \<noteq> [] \<and> split_on CHR ''.'' (trim pre) = ks @ [key] \<and>
    getPath obj pre = Inr JUndefined"
  then have "writable True obj (ks @ key # next_key # rest)"
    and "getPath_loop obj (ks @ [key]) = Inr JUndefined"
    by (auto simp: getPath_def)
  from setPath_reduce_materializes [OF this, of v] a
  show "\<exists>obj'. setPath obj path v True = Inr obj' \<and>
              getPath obj' pre = Inr (materialized v (next_key # rest))"
    by (auto simp: setPath_def getPath_def)
qed

theorem setPath_getPath_roundtrip_witness:
  "setPath (JObj [(''a'', JObj [(''b'', JNum 0), (''c'', JNum 7)])]) ''a.b'' (JStr ''v'') False
     = Inr (JObj [(''a'', JObj [(''b'', JStr ''v''), (''c'', JNum 7)])]) \<and>
   getPath (JObj [(''a'', JObj [(''b'', JStr ''v''), (''c'', JNum 7)])]) ''a.b'' = Inr (JStr ''v'') \<and>
   setPath (JObj []) ''a.0.c'' (JStr ''v'') True
     = Inr (JObj [(''a'', JArr [JObj [(''c'', JStr ''v'')]] [])]) \<and>
   getPath (JObj [(''a'', JArr [JObj [(''c'', JStr ''v'')]] [])]) ''a.0.c'' = Inr (JStr ''v'') \<and>
   materialized (JStr ''v'') [''0'', ''c''] = JArr [JObj [(''c'', JStr ''v'')]] [] \<and>
   setPath (JObj [(''a'', JObj [])]) ''a.list.1'' (JStr ''v'') True
     = Inr (JObj [(''a'', JObj [(''list'', JArr [JUndefined, JStr ''v''] [])])]) \<and>
   setPath (JObj []) ''map.x'' (JStr ''v'') True
     = Inr (JObj [(''map'', JObj [(''x'', JStr ''v'')])])"
  using
    setPath_getPath_roundtrip
      [of "''a.b''" False "JObj [(''a'', JObj [(''b'', JNum 0), (''c'', JNum 7)])]" "JStr ''v''"
          "[]" "''a''" "''b''" "[]" "''a''"]
    setPath_getPath_roundtrip
      [of "''a.0.c''" True "JObj []" "JStr ''v''" "[]" "''a''" "''0''" "[''c'']" "''a''"]
    setPath_getPath_roundtrip
      [of "''a.list.1''" True "JObj [(''a'', JObj [])]" "JStr ''v''" "[''a'']" "''list''" "''1''"
          "[]" "''a.list''"]
    setPath_getPath_roundtrip
      [of "''map.x''" True "JObj []" "JStr ''v''" "[]" "''map''" "''x''" "[]" "''map''"]
  by (simp add: path_examples)

subsection \<open>The patient-parameter lookup\<close>

lemma find_first_total:
  "(\<And>x. x \<in> set xs \<Longrightarrow> p x = Inr (q x)) \<Longrightarrow> find_first p xs = Inr (List.find q xs)"
  by (induction xs) auto

lemma name_keys_no_index:
  "canonical_index ''name'' = None" "array_index ''name'' = None"
  "canonical_index ''type'' = None" "array_index ''type'' = None"
  "canonical_index ''searchParam'' = None" "array_index ''searchParam'' = None"
  by (simp_all add: array_index_def canonical_index_def all_digits_def is_digit_def)

lemma name_keys_own:
  "\<not> inherited v ''name''" "\<not> inherited v ''type''" "\<not> inherited v ''searchParam''"
  by (cases v; simp add: prototype_examples)+

lemma type_is_has_type: "\<not> is_nullish r \<Longrightarrow> type_is rt r = Inr (has_type rt r)"
  by (cases r) (auto simp: type_is_def has_type_def name_keys_own split: option.splits)

lemma name_is_has_name:
  "\<not> is_nullish x \<Longrightarrow> named_or_nameless x \<Longrightarrow> name_is p x = Inr (has_name p x)"
  by (auto simp: name_is_def has_name_def named_or_nameless_def
      split: sum.splits jsval.splits)

lemma find_param:
  assumes "list_all (\<lambda>x. \<not> is_nullish x \<and> named_or_nameless x) params"
  shows "and_then (array_find (name_is p) (JArr params ps)) (\<lambda>hit. Inr (truthy hit))
           = Inr (declares params p)"
proof -
  have "find_first (name_is p) params = Inr (List.find (has_name p) params)"
    using assms by (intro find_first_total name_is_has_name) (auto simp: list_all_iff)
  moreover have "truthy x" if "List.find (has_name p) params = Some x" for x
  proof -
    from that have "has_name p x" by (auto simp: find_Some_iff)
    then show ?thesis
      by (cases x) (auto simp: has_name_def name_keys_no_index name_keys_own split: if_splits)
  qed
  moreover have "(List.find (has_name p) params = None) = (\<not> declares params p)"
    by (auto simp: find_None_iff declares_def list_ex_iff)
  ultimately show ?thesis
    by (cases "List.find (has_name p) params") (auto simp: array_find_def and_then_def)
qed

lemma and_then_simps: "and_then (Inr x) f = f x" "and_then (Inl e) f = Inl e"
  by (simp_all add: and_then_def)

lemma find_first_pure: "find_first (\<lambda>x. Inr (q x)) xs = Inr (List.find q xs)"
  by (rule find_first_total) simp

lemma has_type_truthy: "has_type rt r \<Longrightarrow> truthy r"
  by (cases r) (auto simp: has_type_def name_keys_no_index name_keys_own split: if_splits)

lemma find_descriptor:
  assumes "list_all (\<lambda>r. \<not> is_nullish r) resources"
  shows "array_find (type_is rt) (JArr resources ps) =
           Inr (case List.find (has_type rt) resources of Some m \<Rightarrow> m | None \<Rightarrow> JUndefined)"
proof -
  have "find_first (type_is rt) resources = Inr (List.find (has_type rt) resources)"
    using assms by (intro find_first_total type_is_has_type) (auto simp: list_all_iff)
  then show ?thesis
    by (cases "List.find (has_type rt) resources") (auto simp: array_find_def)
qed

lemmas conformance_examples =
  example_conformance_def example_patient_def example_observation_def example_medication_def
  example_binary_def example_patientParams_def getPath_def trim_def is_space_def lookup_def
  array_index_def canonical_index_def all_digits_def is_digit_def digits_value_def
  has_type_def has_name_def named_or_nameless_def declares_def prototype_examples

text \<open>
  Claim C9. Let \<open>found\<close> be what \<^verbatim>\<open>getPath\<close> reads at \<^verbatim>\<open>rest.0.resource\<close> of the
  conformance statement. When it is a list of resource descriptors, let \<open>meta\<close> be the
  descriptor of the resource type and \<open>params\<close> its search parameters: then
  \<^verbatim>\<open>getPatientParam\<close> returns \<^verbatim>\<open>_id\<close> for the type \<^verbatim>\<open>Patient\<close> when \<^verbatim>\<open>_id\<close> is declared,
  whatever else is declared; otherwise it returns the first name of the priority list that
  is declared, and fails when none is. It fails when no descriptor has the resource type,
  and when the descriptor's \<^verbatim>\<open>searchParam\<close> is not an array. It also fails whenever the
  statement has no list of descriptors: when \<open>found\<close> is falsy (nothing is declared; the
  source reads \<^verbatim>\<open>|| []\<close> there) it fails as for an undeclared type, and when \<open>found\<close> is
  truthy and not an array the call of \<^verbatim>\<open>find\<close> raises a \<^verbatim>\<open>TypeError\<close>.
\<close>

theorem getPatientParam_selection:
  \<open>(getPath conformance ''rest.0.resource'' = Inr (JArr resources ps) \<and>
    list_all (\<lambda>r. \<not> is_nullish r) resources \<and>
    List.find (has_type resourceType) resources = Some meta \<and>
    get_prop meta ''searchParam'' = Inr (JArr params ps') \<and>
    list_all (\<lambda>x. \<not> is_nullish x \<and> named_or_nameless x) params \<and>
    [] \<notin> set patientParams \<longrightarrow>
      getPatientParam patientParams conformance resourceType =
        (if resourceType = ''Patient'' \<and> declares params ''_id'' then Inr ''_id''
         else case List.find (declares params) patientParams of
                Some p \<Rightarrow> Inr p
              | None \<Rightarrow> Inl (Error (''I don't know what param to use for '' @ resourceType)))) \<and>
   (getPath conformance ''rest.0.resource'' = Inr (JArr resources ps) \<and>
    list_all (\<lambda>r. \<not> is_nullish r) resources \<and>
    List.find (has_type resourceType) resources = None \<longrightarrow>
      getPatientParam patientParams conformance resourceType =
        Inl (Error (''Resource "'' @ resourceType @ ''" is not supported by this FHIR server''))) \<and>
   (getPath conformance ''rest.0.resource'' = Inr (JArr resources ps) \<and>
    list_all (\<lambda>r. \<not> is_nullish r) resources \<and>
    List.find (has_type resourceType) resources = Some meta \<and>
    get_prop meta ''searchParam'' = Inr other \<and> \<not> isArray other \<longrightarrow>
      getPatientParam patientParams conformance resourceType =
        Inl (Error (''No search parameters supported for "'' @ resourceType @
                    ''" on this FHIR server''))) \<and>
   (getPath conformance ''rest.0.resource'' = Inr found \<and> \<not> truthy found \<longrightarrow>
      getPatientParam patientParams conformance resourceType =
        Inl (Error (''Resource "'' @ resourceType @ ''" is not supported by this FHIR server''))) \<and>
   (getPath conformance ''rest.0.resource'' = Inr found \<and> truthy found \<and> \<not> isArray found \<longrightarrow>
      getPatientParam patientParams conformance resourceType = Inl TypeError)\<close>
proof (intro conjI impI)
  assume a: "getPath conformance ''rest.0.resource'' = Inr (JArr resources ps) \<and>
    list_all (\<lambda>r. \<not> is_nullish r) resources \<and>
    List.find (has_type resourceType) resources = Some meta \<and>
    get_prop meta ''searchParam'' = Inr (JArr params ps') \<and>
    list_all (\<lambda>x. \<not> is_nullish x \<and> named_or_nameless x) params \<and>
    [] \<notin> set patientParams"
  then have "has_type resourceType meta" by (auto simp: find_Some_iff)
  then have t: "truthy meta" by (rule has_type_truthy)
  from a have d: "array_find (type_is resourceType) (JArr resources ps) = Inr meta"
    by (simp add: find_descriptor)
  from a have w: "list_all (\<lambda>x. \<not> is_nullish x \<and> named_or_nameless x) params" by simp
  have ne: "p \<noteq> []" if "List.find (declares params) patientParams = Some p" for p
    using that a by (auto simp: find_Some_iff in_set_conv_nth)
  show "getPatientParam patientParams conformance resourceType =
        (if resourceType = ''Patient'' \<and> declares params ''_id'' then Inr ''_id''
         else case List.find (declares params) patientParams of
                Some p \<Rightarrow> Inr p
              | None \<Rightarrow> Inl (Error (''I don't know what param to use for '' @ resourceType)))"
    using a t d ne
    by (cases "List.find (declares params) patientParams")
       (auto simp: getPatientParam_def and_then_simps find_param [OF w] find_first_pure)
next
  assume a: "getPath conformance ''rest.0.resource'' = Inr (JArr resources ps) \<and>
    list_all (\<lambda>r. \<not> is_nullish r) resources \<and>
    List.find (has_type resourceType) resources = None"
  then have "array_find (type_is resourceType) (JArr resources ps) = Inr JUndefined"
    by (simp add: find_descriptor)
  with a show \<open>getPatientParam patientParams conformance resourceType =
        Inl (Error (''Resource "'' @ resourceType @ ''" is not supported by this FHIR server''))\<close>
    by (simp add: getPatientParam_def and_then_simps)
next
  assume a: "getPath conformance ''rest.0.resource'' = Inr (JArr resources ps) \<and>
    list_all (\<lambda>r. \<not> is_nullish r) resources \<and>
    List.find (has_type resourceType) resources = Some meta \<and>
    get_prop meta ''searchParam'' = Inr other \<and> \<not> isArray other"
  then have "has_type resourceType meta" by (auto simp: find_Some_iff)
  then have t: "truthy meta" by (rule has_type_truthy)
  from a have d: "array_find (type_is resourceType) (JArr resources ps) = Inr meta"
    by (simp add: find_descriptor)
  with a t show \<open>getPatientParam patientParams conformance resourceType =
        Inl (Error (''No search parameters supported for "'' @ resourceType @
                    ''" on this FHIR server''))\<close>
    by (simp add: getPatientParam_def and_then_simps)
next
  assume "getPath conformance ''rest.0.resource'' = Inr found \<and> \<not> truthy found"
  then show \<open>getPatientParam patientParams conformance resourceType =
        Inl (Error (''Resource "'' @ resourceType @ ''" is not supported by this FHIR server''))\<close>
    by (simp add: getPatientParam_def and_then_simps array_find_def)
next
  assume "getPath conformance ''rest.0.resource'' = Inr found \<and> truthy found \<and> \<not> isArray found"
  then show "getPatientParam patientParams conformance resourceType = Inl TypeError"
    by (cases found) (simp_all add: getPatientParam_def and_then_simps array_find_def)
qed

theorem getPatientParam_selection_witness:
  \<open>getPatientParam example_patientParams example_conformance ''Patient'' = Inr ''_id'' \<and>
   getPatientParam example_patientParams example_conformance ''Observation'' = Inr ''patient'' \<and>
   getPatientParam example_patientParams example_conformance ''Medication''
     = Inl (Error ''I don't know what param to use for Medication'') \<and>
   getPatientParam example_patientParams example_conformance ''Binary''
     = Inl (Error ''No search parameters supported for "Binary" on this FHIR server'') \<and>
   getPatientParam example_patientParams example_conformance ''Device''
     = Inl (Error ''Resource "Device" is not supported by this FHIR server'') \<and>
   getPatientParam example_patientParams (JObj [(''resourceType'', JStr ''CapabilityStatement'')])
       ''Patient''
     = Inl (Error ''Resource "Patient" is not supported by this FHIR server'') \<and>
   getPatientParam example_patientParams
       (JObj [(''rest'', JArr [JObj [(''resource'', JNull)]] [])]) ''Patient''
     = Inl (Error ''Resource "Patient" is not supported by this FHIR server'') \<and>
   getPatientParam example_patientParams
       (JObj [(''rest'', JArr [JObj [(''resource'', JStr ''none'')]] [])]) ''Patient''
     = Inl TypeError\<close>
  using
    getPatientParam_selection
      [where conformance = example_conformance and patientParams = example_patientParams
         and resources = "[example_patient, example_observation, example_medication, example_binary]"
         and ps = "[]" and resourceType = "''Patient''" and meta = example_patient
         and params = "[JObj [(''name'', JStr ''subject'')], JObj [(''name'', JStr ''_id'')]]"
         and ps' = "[]"]
    getPatientParam_selection
      [where conformance = example_conformance and patientParams = example_patientParams
         and resources = "[example_patient, example_observation, example_medication, example_binary]"
         and ps = "[]" and resourceType = "''Observation''" and meta = example_observation
         and params = "[JObj [(''name'', JStr ''code'')], JObj [(''name'', JStr ''subject'')],
                        JObj [(''name'', JStr ''patient'')]]"
         and ps' = "[]"]
    getPatientParam_selection
      [where conformance = example_conformance and patientParams = example_patientParams
         and resources = "[example_patient, example_observation, example_medication, example_binary]"
         and ps = "[]" and resourceType = "''Medication''" and meta = example_medication
         and params = "[JObj [(''name'', JStr ''code'')]]" and ps' = "[]"]
    getPatientParam_selection
      [where conformance = example_conformance and patientParams = example_patientParams
         and resources = "[example_patient, example_observation, example_medication, example_binary]"
         and ps = "[]" and resourceType = "''Binary''" and meta = example_binary
         and other = JUndefined]
    getPatientParam_selection
      [where conformance = example_conformance and patientParams = example_patientParams
         and resources = "[example_patient, example_observation, example_medication, example_binary]"
         and ps = "[]" and resourceType = "''Device''"]
    getPatientParam_selection
      [where conformance = "JObj [(''resourceType'', JStr ''CapabilityStatement'')]"
         and patientParams = example_patientParams and resourceType = "''Patient''"
         and found = JUndefined]
    getPatientParam_selection
      [where conformance = "JObj [(''rest'', JArr [JObj [(''resource'', JNull)]] [])]"
         and patientParams = example_patientParams and resourceType = "''Patient''"
         and found = JNull]
    getPatientParam_selection
      [where conformance = "JObj [(''rest'', JArr [JObj [(''resource'', JStr ''none'')]] [])]"
         and patientParams = example_patientParams and resourceType = "''Patient''"
         and found = "JStr ''none''"]
  by (simp add: conformance_examples)

subsection \<open>The request pipeline\<close>

lemma char_eq_char_of: "(c = char_of n) = (take_bit 8 n = of_char c)"
  using char_of_eq_iff [of n c] by auto

lemmas request_examples = char_eq_char_of
  example_fetch_def created_json_def created_text_def created_untyped_def found_patient_def
  example_post_def example_platform_def example_json_table_def make_init_def
  checkResponse_def response_ok_def read_body_def headers_get_def toLowerCase_def to_lower_def
  matches_word_def word_here_def word_char_def ascii_lower_def deliver_def char_of_eq_iff

text \<open>
  Claim C5 on the code. A reply 201 with a JSON content type, an empty body and a
  \<^verbatim>\<open>location\<close> header, which the comment in \<^verbatim>\<open>request\<close> names as the case to handle, makes
  \<^verbatim>\<open>request\<close> reject: the body is read with \<^verbatim>\<open>res.json()\<close>, which raises a \<^verbatim>\<open>SyntaxError\<close> on
  an empty body before the status is looked at. No second request is made (the network
  has answered one call).
\<close>

theorem request_201_json_empty_body:
  "request example_platform example_fetch 0 ''/Patient'' example_post
     = Some (Inl SyntaxError, 1)"
  by (subst request.simps) (simp add: request_examples)

text \<open>
  What holds of the 201 rule. When \<^verbatim>\<open>fetch\<close> answers with status 201, an empty body, a
  non-empty \<^verbatim>\<open>location\<close> header and a content type that does not match \<^verbatim>\<open>json\<close>, the result
  of \<^verbatim>\<open>request\<close> is the result of \<^verbatim>\<open>request\<close> on that location, with the same options but
  the method \<^verbatim>\<open>GET\<close> and the body \<^verbatim>\<open>null\<close>. The equation applies to the second request in
  turn, so a chain of such replies resolves to the final resource.
\<close>

theorem request_follows_location:
  "fetch net url (make_init options) = (Inr res, net') \<and>
   status res = 201 \<and> body_text res = [] \<and>
   \<not> matches_word ''json''
       (case headers_get res ''content-type'' of Some t \<Rightarrow> t | None \<Rightarrow> ''null'') \<and>
   headers_get res ''location'' = Some location \<and> location \<noteq> [] \<longrightarrow>
     request plat fetch net url options =
       request plat fetch net' location
         (options\<lparr>req_method := Some ''GET'', req_body := Some JNull\<rparr>)"
  by (subst request.simps)
     (auto simp: checkResponse_def response_ok_def read_body_def Let_def)

theorem request_follows_location_witness:
  "request example_platform example_fetch 0 ''/text'' example_post
     = Some (Inr (Body (JObj [(''sub'', JStr ''abc'')])), 3)"
proof -
  have "request example_platform example_fetch 0 ''/text'' example_post =
        request example_platform example_fetch 1 ''/step2''
          (example_post\<lparr>req_method := Some ''GET'', req_body := Some JNull\<rparr>)"
    using request_follows_location
      [of example_fetch 0 "''/text''" example_post created_text 1 "''/step2''" example_platform]
    by (simp add: request_examples)
  also have "\<dots> = request example_platform example_fetch 2 ''/Patient/1''
          (example_post\<lparr>req_method := Some ''GET'', req_body := Some JNull\<rparr>)"
    using request_follows_location
      [of example_fetch 1 "''/step2''"
          "example_post\<lparr>req_method := Some ''GET'', req_body := Some JNull\<rparr>" created_untyped 2
          "''/Patient/1''" example_platform]
    by (simp add: request_examples)
  also have "\<dots> = Some (Inr (Body (JObj [(''sub'', JStr ''abc'')])), 3)"
    by (subst request.simps) (simp add: request_examples)
  finally show ?thesis .
qed

subsection \<open>The per-URL cache\<close>

lemma cache_put_get: "cache_get (cache_put st url p) url = Entry p"
  by (simp add: cache_get_def cache_put_def)

lemma cache_put_issued: "issued (cache_put st url p) = issued st"
  by (simp add: cache_put_def)

lemma getAndCache_request:
  "force \<or> cache_get st url = Missing \<Longrightarrow>
   getAndCache url requestOptions force st =
     (OfRequest (length (issued st)),
      cache_put (st\<lparr>issued := issued st @ [(url, requestOptions)]\<rparr>) url (length (issued st)))"
  by (simp add: getAndCache_def Let_def cache_put_get)

lemma getAndCache_hit:
  "\<not> force \<Longrightarrow> cache_get st url \<noteq> Missing \<Longrightarrow>
   getAndCache url requestOptions force st = (resolve (cache_get st url), st)"
  by (simp add: getAndCache_def)

lemma entry_kept:
  "cache_get st u = Entry q \<Longrightarrow> url \<noteq> u \<Longrightarrow> cache_get (cache_put st url p) u = Entry q"
  by (cases "cache st u"; cases "cache_proto st")
     (auto simp: cache_get_def cache_put_def split: if_splits)

lemma issued_kept: "cache_get (st\<lparr>issued := xs\<rparr>) u = cache_get st u"
  by (cases "cache_proto st") (simp_all add: cache_get_def)

lemma missing_kept:
  "cache_get st u = Missing \<Longrightarrow> u \<notin> set promise_prototype_names \<Longrightarrow> url \<noteq> u \<Longrightarrow>
   cache_get (cache_put st url p) u = Missing"
  by (cases "cache st u"; cases "cache_proto st")
     (auto simp: cache_get_def cache_put_def split: if_splits)

lemma getAndCache_entry:
  assumes "cache_get st u = Entry q" and "\<not> (force \<and> url = u)"
  shows "cache_get (snd (getAndCache url requestOptions force st)) u = Entry q"
proof (cases "force \<or> cache_get st url = Missing")
  case True
  with assms have "url \<noteq> u" by auto
  with assms(1) True show ?thesis
    by (simp add: getAndCache_request entry_kept issued_kept)
next
  case False
  with assms(1) show ?thesis by (simp add: getAndCache_hit)
qed

lemma getAndCache_requests:
  "requests_for u (snd (getAndCache url requestOptions force st)) =
     (if (force \<or> cache_get st url = Missing) \<and> url = u then Suc (requests_for u st)
      else requests_for u st)"
  by (cases "force \<or> cache_get st url = Missing")
     (auto simp: getAndCache_request getAndCache_hit requests_for_def cache_put_issued)

lemma run_calls_cached:
  "cache_get st url = Entry p \<Longrightarrow> \<not> list_ex (forces url) calls \<Longrightarrow>
   run_calls calls st = (ps, st') \<Longrightarrow>
   cache_get st' url = Entry p \<and> requests_for url st' = requests_for url st \<and>
   set (promises_for url calls ps) \<subseteq> {OfRequest p} \<and> length ps = length calls"
proof (induction calls arbitrary: st ps st')
  case Nil
  then show ?case by (auto simp: promises_for_def)
next
  case (Cons c cs)
  obtain q st1 where g: "getAndCache (fst c) (fst (snd c)) (snd (snd c)) st = (q, st1)"
    by (cases "getAndCache (fst c) (fst (snd c)) (snd (snd c)) st")
  obtain qs st2 where r: "run_calls cs st1 = (qs, st2)" by (cases "run_calls cs st1")
  from Cons.prems(3) g r have ps: "ps = q # qs" and st': "st' = st2" by auto
  from Cons.prems(2) have nfs: "\<not> list_ex (forces url) cs" by simp
  from Cons.prems(2) have nf: "\<not> (snd (snd c) \<and> fst c = url)" by (auto simp: forces_def)
  from getAndCache_entry [OF Cons.prems(1) nf, of "fst (snd c)"] g
  have c1: "cache_get st1 url = Entry p" by simp
  from getAndCache_requests [of url "fst c" "fst (snd c)" "snd (snd c)" st] g nf Cons.prems(1)
  have n1: "requests_for url st1 = requests_for url st" by auto
  have q: "fst c = url \<longrightarrow> q = OfRequest p"
  proof
    assume u: "fst c = url"
    with nf have "\<not> snd (snd c)" by simp
    with u Cons.prems(1) g show "q = OfRequest p" by (simp add: getAndCache_hit)
  qed
  from Cons.IH [OF c1 nfs r] have
    "cache_get st2 url = Entry p" "requests_for url st2 = requests_for url st1"
    "set (promises_for url cs qs) \<subseteq> {OfRequest p}" "length qs = length cs" by auto
  with n1 q ps st' show ?case by (auto simp: promises_for_def)
qed

lemma run_calls_uncached:
  "cache_get st url = Missing \<Longrightarrow> url \<notin> set promise_prototype_names \<Longrightarrow>
   \<not> list_ex (forces url) calls \<Longrightarrow> run_calls calls st = (ps, st') \<Longrightarrow>
   length ps = length calls \<and>
   (if list_ex (\<lambda>c. fst c = url) calls
    then requests_for url st' = Suc (requests_for url st) \<and>
         (\<exists>p. cache_get st' url = Entry p \<and> set (promises_for url calls ps) = {OfRequest p})
    else requests_for url st' = requests_for url st \<and> cache_get st' url = Missing \<and>
         promises_for url calls ps = [])"
proof (induction calls arbitrary: st ps st')
  case Nil
  then show ?case by (auto simp: promises_for_def)
next
  case (Cons c cs)
  obtain q st1 where g: "getAndCache (fst c) (fst (snd c)) (snd (snd c)) st = (q, st1)"
    by (cases "getAndCache (fst c) (fst (snd c)) (snd (snd c)) st")
  obtain qs st2 where r: "run_calls cs st1 = (qs, st2)" by (cases "run_calls cs st1")
  from Cons.prems(4) g r have ps: "ps = q # qs" and st': "st' = st2" by auto
  from Cons.prems(3) have nfs: "\<not> list_ex (forces url) cs" by auto
  show ?case
  proof (cases "fst c = url")
    case True
    with g Cons.prems(1) have q: "q = OfRequest (length (issued st))"
      and c1: "cache_get st1 url = Entry (length (issued st))"
      by (auto simp: getAndCache_request cache_put_get)
    from getAndCache_requests [of url "fst c" "fst (snd c)" "snd (snd c)" st] g True Cons.prems(1)
    have n1: "requests_for url st1 = Suc (requests_for url st)" by simp
    from run_calls_cached [OF c1 nfs r] True n1 ps st' q show ?thesis
      by (auto simp: promises_for_def)
  next
    case False
    have c1: "cache_get st1 url = Missing"
    proof (cases "snd (snd c) \<or> cache_get st (fst c) = Missing")
      case True
      with g have "st1 = cache_put (st\<lparr>issued := issued st @ [(fst c, fst (snd c))]\<rparr>) (fst c)
                           (length (issued st))"
        by (simp add: getAndCache_request)
      with Cons.prems(1,2) False show ?thesis by (simp add: missing_kept issued_kept)
    next
      case False
      with g Cons.prems(1) show ?thesis by (simp add: getAndCache_hit)
    qed
    from getAndCache_requests [of url "fst c" "fst (snd c)" "snd (snd c)" st] g False
    have n1: "requests_for url st1 = requests_for url st" by simp
    from Cons.IH [OF c1 Cons.prems(2) nfs r] False n1 ps st' show ?thesis
      by (auto simp: promises_for_def)
  qed
qed


lemma missing_iff:
  "cache st url = None \<Longrightarrow> cache_proto st = None \<or> url \<notin> set promise_prototype_names \<Longrightarrow>
   url \<notin> set object_prototype_names \<Longrightarrow> cache_get st url = Missing"
  by (auto simp: cache_get_def object_prototype_names_def)

lemmas cache_examples =
  example_calls_def inherited_calls_def empty_cache_def getAndCache_def cache_get_def
  cache_put_def requests_for_def promises_for_def forces_def object_prototype_names_def
  promise_prototype_names_def Let_def

text \<open>
  Claim C4, as stated, fails: it speaks of every URL, and the URL \<^verbatim>\<open>constructor\<close> is never
  uncached. On the cache as it is when the module is loaded, \<^verbatim>\<open>cache["constructor"]\<close> is the
  function \<^verbatim>\<open>Object\<close>, inherited and truthy: each of three callers is handed a new promise
  fulfilled with that function, and no request is made. Likewise, once a forced call on
  \<^verbatim>\<open>__proto__\<close> has made its promise the prototype of the cache, a caller on the URL \<^verbatim>\<open>then\<close>
  is handed the method of that name, and no request is made for it.
\<close>

theorem getAndCache_inherited_name:
  "fst (run_calls inherited_calls empty_cache)
     = [OfMember ''constructor'', OfMember ''constructor'', OfMember ''constructor''] \<and>
   issued (snd (run_calls inherited_calls empty_cache)) = [] \<and>
   requests_for ''constructor'' (snd (run_calls inherited_calls empty_cache)) = 0 \<and>
   fst (run_calls [(''__proto__'', (), True), (''then'', (), False)] empty_cache)
     = [OfRequest 0, OfMember ''then''] \<and>
   requests_for ''then''
     (snd (run_calls [(''__proto__'', (), True), (''then'', (), False)] empty_cache)) = 0"
  by (simp add: cache_examples)

text \<open>
  Claim C4, amended. Take a URL that has no cache entry and is not the name of a property
  the cache can inherit (from \<^verbatim>\<open>Object.prototype\<close>, or from a promise that a forced call on
  \<^verbatim>\<open>__proto__\<close> made its prototype), and a sequence of calls of \<^verbatim>\<open>getAndCache\<close>, possibly
  mixed with calls on other URLs, in which some caller asks for the URL and none forces
  it. Then exactly one call of \<^verbatim>\<open>request\<close> is made for the URL, and every caller on the
  URL is returned one and the same promise, which is what \<^verbatim>\<open>cache[url]\<close> holds afterwards. A
  call with \<^verbatim>\<open>force\<close> set makes a new request, on any URL, and its promise is what
  \<^verbatim>\<open>cache[url]\<close> holds afterwards. No call removes a stored promise, and only a forced
  call on the same URL replaces it.
\<close>

theorem getAndCache_one_request:
  "(cache st url = None \<and> url \<notin> set (object_prototype_names @ promise_prototype_names) \<and>
    \<not> list_ex (forces url) calls \<and> list_ex (\<lambda>c. fst c = url) calls \<and>
    run_calls calls st = (ps, st') \<longrightarrow>
      requests_for url st' = Suc (requests_for url st) \<and>
      (\<exists>p. set (promises_for url calls ps) = {OfRequest p} \<and> cache_get st' url = Entry p)) \<and>
   (fst (getAndCache url requestOptions True st) = OfRequest (length (issued st)) \<and>
    issued (snd (getAndCache url requestOptions True st)) = issued st @ [(url, requestOptions)] \<and>
    cache_get (snd (getAndCache url requestOptions True st)) url = Entry (length (issued st))) \<and>
   (cache_get st u = Entry q \<longrightarrow>
      (\<exists>q'. cache_get (snd (getAndCache url requestOptions force st)) u = Entry q') \<and>
      (\<not> (force \<and> url = u) \<longrightarrow>
         cache_get (snd (getAndCache url requestOptions force st)) u = Entry q))"
proof (intro conjI impI)
  assume a: "cache st url = None \<and>
    url \<notin> set (object_prototype_names @ promise_prototype_names) \<and>
    \<not> list_ex (forces url) calls \<and> list_ex (\<lambda>c. fst c = url) calls \<and>
    run_calls calls st = (ps, st')"
  then have m: "cache_get st url = Missing" and n: "url \<notin> set promise_prototype_names"
    by (simp_all add: missing_iff)
  from run_calls_uncached [OF m n, of calls ps st'] a
  show "requests_for url st' = Suc (requests_for url st)"
    and "\<exists>p. set (promises_for url calls ps) = {OfRequest p} \<and> cache_get st' url = Entry p"
    by auto
next
  show "fst (getAndCache url requestOptions True st) = OfRequest (length (issued st))"
    and "issued (snd (getAndCache url requestOptions True st)) = issued st @ [(url, requestOptions)]"
    and "cache_get (snd (getAndCache url requestOptions True st)) url = Entry (length (issued st))"
    by (simp_all add: getAndCache_request cache_put_get cache_put_issued)
next
  assume e: "cache_get st u = Entry q"
  show "\<exists>q'. cache_get (snd (getAndCache url requestOptions force st)) u = Entry q'"
  proof (cases "force \<and> url = u")
    case True
    then show ?thesis by (simp add: getAndCache_request cache_put_get)
  next
    case False
    from getAndCache_entry [OF e False] show ?thesis by blast
  qed
next
  assume "cache_get st u = Entry q" and "\<not> (force \<and> url = u)"
  then show "cache_get (snd (getAndCache url requestOptions force st)) u = Entry q"
    by (rule getAndCache_entry)
qed

theorem getAndCache_one_request_witness:
  "fst (run_calls example_calls empty_cache)
     = [OfRequest 0, OfRequest 1, OfRequest 0, OfRequest 0] \<and>
   issued (snd (run_calls example_calls empty_cache)) = [(''/metadata'', ()), (''/other'', ())] \<and>
   requests_for ''/metadata'' (snd (run_calls example_calls empty_cache)) = 1 \<and>
   fst (getAndCache ''/metadata'' () True (snd (run_calls example_calls empty_cache)))
     = OfRequest 2"
  using getAndCache_one_request
    [of empty_cache "''/metadata''" example_calls "fst (run_calls example_calls empty_cache)"
        "snd (run_calls example_calls empty_cache)" "()" "''/metadata''" 0 False]
  by (simp add: cache_examples)

text \<open>
  Claim C10. Whenever \<^verbatim>\<open>getAndCache\<close> makes a request (\<^verbatim>\<open>force\<close> is set, or \<^verbatim>\<open>cache[url]\<close> is
  falsy), it stores the promise of that request, whatever becomes of the request, and
  hands it to the caller; in every other case it makes no request and leaves the cache
  as it is. When the stored promise \<open>p\<close> is rejected with \<open>e\<close>, every later sequence of
  calls without a forced call on the URL leaves it stored, makes no further request for
  the URL, and returns to every caller on the URL a promise of a request rejected with
  \<open>e\<close>. This holds for every URL, the names of inherited properties included.
\<close>

theorem getAndCache_caches_rejection:
  "((force \<or> cache_get st url = Missing) \<longrightarrow>
      fst (getAndCache url requestOptions force st) = OfRequest (length (issued st)) \<and>
      cache_get (snd (getAndCache url requestOptions force st)) url = Entry (length (issued st)) \<and>
      issued (snd (getAndCache url requestOptions force st)) = issued st @ [(url, requestOptions)]) \<and>
   (\<not> (force \<or> cache_get st url = Missing) \<longrightarrow>
      getAndCache url requestOptions force st = (resolve (cache_get st url), st)) \<and>
   (cache_get st url = Entry p \<and> outcome p = Some (Inl e) \<and>
    \<not> list_ex (forces url) calls \<and> run_calls calls st = (ps, st') \<longrightarrow>
      cache_get st' url = Entry p \<and> requests_for url st' = requests_for url st \<and>
      list_all (\<lambda>h. \<exists>q. h = OfRequest q \<and> outcome q = Some (Inl e)) (promises_for url calls ps))"
proof (intro conjI impI)
  assume "force \<or> cache_get st url = Missing"
  then show "fst (getAndCache url requestOptions force st) = OfRequest (length (issued st))"
    and "cache_get (snd (getAndCache url requestOptions force st)) url = Entry (length (issued st))"
    and "issued (snd (getAndCache url requestOptions force st)) = issued st @ [(url, requestOptions)]"
    by (simp_all add: getAndCache_request cache_put_get cache_put_issued)
next
  assume "\<not> (force \<or> cache_get st url = Missing)"
  then show "getAndCache url requestOptions force st = (resolve (cache_get st url), st)"
    by (simp add: getAndCache_hit)
next
  assume a: "cache_get st url = Entry p \<and> outcome p = Some (Inl e) \<and>
    \<not> list_ex (forces url) calls \<and> run_calls calls st = (ps, st')"
  with run_calls_cached [of st url p calls ps st']
  have c: "cache_get st' url = Entry p" and n: "requests_for url st' = requests_for url st"
    and s: "set (promises_for url calls ps) \<subseteq> {OfRequest p}" by auto
  from c show "cache_get st' url = Entry p" .
  from n show "requests_for url st' = requests_for url st" .
  from s a show "list_all (\<lambda>h. \<exists>q. h = OfRequest q \<and> outcome q = Some (Inl e))
      (promises_for url calls ps)"
    by (auto simp: list_all_iff)
qed

theorem getAndCache_caches_rejection_witness:
  "fst (run_calls example_calls
          (snd (getAndCache ''/metadata'' () True empty_cache)))
     = [OfRequest 0, OfRequest 1, OfRequest 0, OfRequest 0] \<and>
   issued (snd (run_calls example_calls
          (snd (getAndCache ''/metadata'' () True empty_cache))))
     = [(''/metadata'', ()), (''/other'', ())] \<and>
   cache_get (snd (run_calls example_calls
          (snd (getAndCache ''/metadata'' () True empty_cache)))) ''/metadata'' = Entry 0 \<and>
   cache_get (snd (getAndCache ''/metadata'' () True
          (snd (getAndCache ''/metadata'' () False empty_cache)))) ''/metadata'' = Entry 1 \<and>
   getAndCache ''toString'' () False empty_cache = (OfMember ''toString'', empty_cache)"
  using
    getAndCache_caches_rejection
      [of True "snd (getAndCache ''/metadata'' () False empty_cache)" "''/metadata''" "()" 0
          "\<lambda>h. if h = 0 then Some (Inl TypeError) else None" TypeError "[]" "[]"
          "snd (getAndCache ''/metadata'' () False empty_cache)"]
    getAndCache_caches_rejection
      [of False "snd (getAndCache ''/metadata'' () True empty_cache)" "''/metadata''" "()" 0
          "\<lambda>h. if h = 0 then Some (Inl TypeError) else None" TypeError example_calls
          "fst (run_calls example_calls (snd (getAndCache ''/metadata'' () True empty_cache)))"
          "snd (run_calls example_calls (snd (getAndCache ''/metadata'' () True empty_cache)))"]
    getAndCache_caches_rejection
      [of False empty_cache "''toString''" "()" 0
          "\<lambda>h. if h = 0 then Some (Inl TypeError) else None" TypeError "[]" "[]" empty_cache]
  by (simp add: cache_examples)

end
